theory Spec2Isabelle
  imports Main
begin

section \<open>The ConversationRelay voice assistant (index.js)\<close>

text \<open>
  The server keeps one conversation history per call in the global map \<open>sessions\<close>,
  receives ConversationRelay messages on a WebSocket and answers each prompt with text
  produced by the OpenAI chat completion API. The model below follows index.js:
  the message handler (lines 92-120), the close handler (lines 123-126) and
  \<open>generateAIResponse\<close> (lines 146-197).

  Modelling decisions.
  \<^item> A JavaScript value that the code only stores, forwards or uses as a map key is a
    \<open>jsval\<close>: \<open>undefined\<close>, \<open>null\<close> or a string. The field \<open>type\<close> of an inbound
    message is a string (an absent or non-string \<open>type\<close> selects no branch, like any
    unrecognised string).
  \<^item> Mutation is explicit state passing. The state holds the global \<open>sessions\<close> map,
    the two things the handlers use of the socket \<open>ws\<close> (its ad-hoc attribute
    \<open>callSid\<close> and the messages given to \<open>ws.send\<close>, in order) and the lines written
    with \<open>console.log\<close>.
  \<^item> A thrown exception or a rejected promise is \<open>Inl\<close> of an \<open>error\<close>; the state
    reached at the throw is returned with it, since what was mutated or sent before is
    not undone. The source has no \<open>try\<close>/\<open>catch\<close> around the handlers, so \<open>Inl\<close> as
    the result of a handler is a rejection nobody handles.
  \<^item> The OpenAI client is outside the repository: it is a parameter, a function from
    the history it is given to what the call does (reject, return a completion, or
    return a stream that yields chunks and then ends or throws). A stream is a finite
    datatype, so the \<open>for await\<close> loop is structural recursion over it; a stream that
    never ends is a generation that never completes and is not modelled.
  \<^item> \<open>ws_on_message\<close> and \<open>run\<close> take each invocation of the handler to its end
    before the next event is handled. The handler is \<open>async\<close>, so invocations can
    also overlap: the section on handlers that overlap models the server with the
    suspension points of the handler, and the serial runs are shown to be schedules
    of it.
  \<^item> \<open>ws.send\<close> itself does not throw (the socket is open).
\<close>

subsection \<open>Values and messages\<close>

datatype jsval = Undefined | Null | Str string

datatype error = SyntaxError | TypeError | BackendError

datatype role = System | User | Assistant

text \<open>An element of a conversation: \<open>{ role: ..., content: ... }\<close>.\<close>

record chat_message =
  role :: role
  content :: jsval

text \<open>The object \<open>message = JSON.parse(data)\<close>, with the fields the handler reads.\<close>

record message =
  type :: string
  callSid :: jsval
  voicePrompt :: jsval

text \<open>
  What arrives on the socket: text that \<open>JSON.parse\<close> rejects, the JSON text
  \<open>null\<close> (on which reading \<open>message.type\<close> throws), or an object.
\<close>

datatype frame = Malformed | Json_null | Json message

text \<open>The object given to \<open>JSON.stringify\<close> and \<open>ws.send\<close>.\<close>

record outbound =
  otype :: string
  token :: jsval
  last_flag :: bool

subsection \<open>The OpenAI client\<close>

text \<open>A streamed chunk, as far as \<open>chunk.choices[0]?.delta?.content\<close> reads it.\<close>

datatype delta = Delta (delta_content: jsval)

datatype choice = Choice (delta: "delta option")

datatype chunk = Chunk (choices: "choice list")

text \<open>The asynchronous iterator returned for \<open>stream: true\<close>.\<close>

datatype stream = Stream_end | Stream_throws | Stream_chunk chunk stream

text \<open>
  A completion, as far as \<open>completion.choices[0].message.content\<close> reads it: the
  \<open>message.content\<close> of each choice.
\<close>

datatype completion = Completion (message_contents: "jsval list")

record openai =
  create_stream :: "chat_message list \<Rightarrow> error + stream"
  create :: "chat_message list \<Rightarrow> error + completion"

subsection \<open>State\<close>

record state =
  sessions :: "jsval \<Rightarrow> chat_message list option"
  ws_callSid :: jsval
  ws_sent :: "outbound list"
  console :: "(string \<times> jsval) list"

definition SYSTEM_PROMPT :: string where
  "SYSTEM_PROMPT =
     ''You are a helpful voice assistant. Speak naturally, avoid emojis and special characters.''"

definition system_message :: chat_message where
  "system_message = \<lparr>role = System, content = Str SYSTEM_PROMPT\<rparr>"

definition ws_send :: "outbound \<Rightarrow> state \<Rightarrow> state" where
  "ws_send m st = st\<lparr>ws_sent := ws_sent st @ [m]\<rparr>"

definition console_log :: "string \<Rightarrow> jsval \<Rightarrow> state \<Rightarrow> state" where
  "console_log label v st = st\<lparr>console := console st @ [(label, v)]\<rparr>"

subsection \<open>generateAIResponse\<close>

text \<open>\<open>chunk.choices[0]?.delta?.content || ""\<close>\<close>

definition chunk_content :: "chunk \<Rightarrow> string" where
  "chunk_content ch =
     (case choices ch of
        [] \<Rightarrow> ''''
      | c # _ \<Rightarrow>
          (case delta c of
             None \<Rightarrow> ''''
           | Some d \<Rightarrow> (case delta_content d of Str s \<Rightarrow> s | _ \<Rightarrow> '''')))"

definition text_fragment :: "string \<Rightarrow> outbound" where
  "text_fragment s = \<lparr>otype = ''text'', token = Str s, last_flag = False\<rparr>"

definition final_marker :: outbound where
  "final_marker = \<lparr>otype = ''text'', token = Str '''', last_flag = True\<rparr>"

text \<open>
  The loop \<open>for await (const chunk of stream)\<close>, with \<open>responseTokens\<close> as the
  accumulator: a chunk whose content is not the empty string is sent and pushed.
\<close>

fun for_await :: "stream \<Rightarrow> string list \<Rightarrow> state \<Rightarrow> (error + string list) \<times> state" where
  "for_await Stream_end responseTokens st = (Inr responseTokens, st)"
| "for_await Stream_throws responseTokens st = (Inl BackendError, st)"
| "for_await (Stream_chunk ch rest) responseTokens st =
     (let content' = chunk_content ch in
      if content' \<noteq> ''''
      then for_await rest (responseTokens @ [content']) (ws_send (text_fragment content') st)
      else for_await rest responseTokens st)"

definition generateAIResponse ::
  "bool \<Rightarrow> openai \<Rightarrow> chat_message list \<Rightarrow> state \<Rightarrow> (error + jsval) \<times> state" where
  "generateAIResponse USE_STREAMING ai conversation st =
     (if USE_STREAMING then
        (case create_stream ai conversation of
           Inl e \<Rightarrow> (Inl e, st)
         | Inr stream \<Rightarrow>
             (case for_await stream [] st of
                (Inl e, st1) \<Rightarrow> (Inl e, st1)
              | (Inr responseTokens, st1) \<Rightarrow>
                  (Inr (Str (concat responseTokens)), ws_send final_marker st1)))
      else
        (case create ai conversation of
           Inl e \<Rightarrow> (Inl e, st)
         | Inr completion \<Rightarrow>
             (case message_contents completion of
                [] \<Rightarrow> (Inl TypeError, st)
              | response # _ \<Rightarrow>
                  (Inr response,
                   ws_send \<lparr>otype = ''text'', token = response, last_flag = True\<rparr> st))))"

subsection \<open>The WebSocket handlers\<close>

text \<open>The branch \<open>if (message.type === "setup")\<close>.\<close>

definition on_setup :: "message \<Rightarrow> state \<Rightarrow> state" where
  "on_setup message st =
     console_log ''Call setup:'' (callSid message)
       (st\<lparr>ws_callSid := callSid message,
           sessions := (sessions st)(callSid message \<mapsto> [system_message])\<rparr>)"

text \<open>
  The branch \<open>if (message.type === "prompt")\<close>. \<open>sessions.get\<close> gives \<open>undefined\<close>
  for a key that is not in the map, and \<open>conversation.push\<close> on it throws a TypeError.
  The array that \<open>push\<close> mutates is the one stored in the map, so each push is an
  update of the map at \<open>ws.callSid\<close>.
\<close>

definition on_prompt :: "bool \<Rightarrow> openai \<Rightarrow> message \<Rightarrow> state \<Rightarrow> (error + unit) \<times> state" where
  "on_prompt USE_STREAMING ai message st =
     (case sessions st (ws_callSid st) of
        None \<Rightarrow> (Inl TypeError, st)
      | Some conversation \<Rightarrow>
          (let conversation1 = conversation @ [\<lparr>role = User, content = voicePrompt message\<rparr>];
               st1 = console_log ''User response:'' (voicePrompt message)
                       (st\<lparr>sessions := (sessions st)(ws_callSid st \<mapsto> conversation1)\<rparr>)
           in case generateAIResponse USE_STREAMING ai conversation1 st1 of
                (Inl e, st2) \<Rightarrow> (Inl e, st2)
              | (Inr response, st2) \<Rightarrow>
                  (Inr (),
                   console_log ''AI response:'' response
                     (st2\<lparr>sessions := (sessions st2)(ws_callSid st2 \<mapsto>
                            conversation1 @ [\<lparr>role = Assistant, content = response\<rparr>])\<rparr>))))"

text \<open>The branch \<open>if (message.type == 'interrupt')\<close>: it only logs.\<close>

definition on_interrupt :: "state \<Rightarrow> state" where
  "on_interrupt st = console_log ''Call interrupted:'' (ws_callSid st) st"

text \<open>
  \<open>ws.on("message", async (data) => ...)\<close>: the three \<open>if\<close> statements run one after
  the other; a throw in one of them ends the handler.
\<close>

definition ws_on_message :: "bool \<Rightarrow> openai \<Rightarrow> frame \<Rightarrow> state \<Rightarrow> (error + unit) \<times> state" where
  "ws_on_message USE_STREAMING ai data st =
     (case data of
        Malformed \<Rightarrow> (Inl SyntaxError, st)
      | Json_null \<Rightarrow> (Inl TypeError, st)
      | Json message \<Rightarrow>
          (let st1 = (if type message = ''setup'' then on_setup message st else st)
           in case (if type message = ''prompt''
                    then on_prompt USE_STREAMING ai message st1
                    else (Inr (), st1)) of
                (Inl e, st2) \<Rightarrow> (Inl e, st2)
              | (Inr _, st2) \<Rightarrow>
                  (Inr (), if type message = ''interrupt'' then on_interrupt st2 else st2)))"

text \<open>\<open>ws.on("close", ...)\<close>\<close>

definition ws_on_close :: "state \<Rightarrow> state" where
  "ws_on_close st =
     (let st1 = console_log ''WebSocket connection closed'' Undefined st
      in st1\<lparr>sessions := (sessions st1)(ws_callSid st1 := None)\<rparr>)"

subsection \<open>Sequences of events on one connection\<close>

text \<open>
  An event is a message, given with what the OpenAI client does while that message is
  handled, or the closing of the socket. \<open>run\<close> delivers the events in order, each
  handler taken to its end before the next event, and stops at the first handler that
  throws. It is the schedule without overlap; \<open>interleave\<close> below runs any schedule.
\<close>

datatype event = Message openai frame | Close

fun handle :: "bool \<Rightarrow> event \<Rightarrow> state \<Rightarrow> (error + unit) \<times> state" where
  "handle USE_STREAMING (Message ai data) st = ws_on_message USE_STREAMING ai data st"
| "handle USE_STREAMING Close st = (Inr (), ws_on_close st)"

fun run :: "bool \<Rightarrow> event list \<Rightarrow> state \<Rightarrow> (error + unit) \<times> state" where
  "run USE_STREAMING [] st = (Inr (), st)"
| "run USE_STREAMING (e # es) st =
     (case handle USE_STREAMING e st of
        (Inl err, st1) \<Rightarrow> (Inl err, st1)
      | (Inr _, st1) \<Rightarrow> run USE_STREAMING es st1)"

text \<open>The messages ConversationRelay sends.\<close>

definition setup_message :: "jsval \<Rightarrow> message" where
  "setup_message c = \<lparr>type = ''setup'', callSid = c, voicePrompt = Undefined\<rparr>"

definition prompt_message :: "jsval \<Rightarrow> message" where
  "prompt_message v = \<lparr>type = ''prompt'', callSid = Undefined, voicePrompt = v\<rparr>"

definition interrupt_message :: message where
  "interrupt_message = \<lparr>type = ''interrupt'', callSid = Undefined, voicePrompt = Undefined\<rparr>"

text \<open>A server that has just started, and a socket that has just connected.\<close>

definition initial :: state where
  "initial = \<lparr>sessions = Map.empty, ws_callSid = Undefined, ws_sent = [], console = []\<rparr>"

subsection \<open>What a stream yields\<close>

text \<open>
  The chunks a stream yields before it ends or throws, whether it ends without
  throwing, and the contents among them that are not the empty string: the fragments.
\<close>

fun chunks :: "stream \<Rightarrow> chunk list" where
  "chunks Stream_end = []"
| "chunks Stream_throws = []"
| "chunks (Stream_chunk ch rest) = ch # chunks rest"

fun ends_normally :: "stream \<Rightarrow> bool" where
  "ends_normally Stream_end = True"
| "ends_normally Stream_throws = False"
| "ends_normally (Stream_chunk ch rest) = ends_normally rest"

definition fragments :: "stream \<Rightarrow> string list" where
  "fragments s = filter (\<lambda>c. c \<noteq> '''') (map chunk_content (chunks s))"

text \<open>The messages sent between two states, and the text a message carries.\<close>

definition sent_since :: "state \<Rightarrow> state \<Rightarrow> outbound list" where
  "sent_since st st' = drop (length (ws_sent st)) (ws_sent st')"

definition token_text :: "outbound \<Rightarrow> string" where
  "token_text m = (case token m of Str s \<Rightarrow> s | _ \<Rightarrow> '''')"

text \<open>The two elements a completed turn appends to the conversation.\<close>

definition user_message :: "message \<Rightarrow> chat_message" where
  "user_message message = \<lparr>role = User, content = voicePrompt message\<rparr>"

definition assistant_message :: "jsval \<Rightarrow> chat_message" where
  "assistant_message response = \<lparr>role = Assistant, content = response\<rparr>"

text \<open>The events that are setup messages.\<close>

fun is_setup :: "event \<Rightarrow> bool" where
  "is_setup (Message ai (Json message)) = (type message = ''setup'')"
| "is_setup _ = False"

subsection \<open>Example backends and messages\<close>

definition chunk_of :: "string \<Rightarrow> chunk" where
  "chunk_of s = Chunk [Choice (Some (Delta (Str s)))]"

definition story_stream :: stream where
  "story_stream =
     Stream_chunk (chunk_of ''Once'') (Stream_chunk (chunk_of ''upon'')
       (Stream_chunk (chunk_of ''a time'') Stream_end))"

definition story_ai :: openai where
  "story_ai = \<lparr>create_stream = (\<lambda>_. Inr story_stream),
               create = (\<lambda>_. Inr (Completion [Str ''hi there'']))\<rparr>"

definition silent_stream :: stream where
  "silent_stream =
     Stream_chunk (Chunk []) (Stream_chunk (Chunk [Choice None])
       (Stream_chunk (Chunk [Choice (Some (Delta Null))])
         (Stream_chunk (chunk_of '''') Stream_end)))"

definition silent_ai :: openai where
  "silent_ai = \<lparr>create_stream = (\<lambda>_. Inr silent_stream),
                create = (\<lambda>_. Inr (Completion [Str '''']))\<rparr>"

definition failing_ai :: openai where
  "failing_ai = \<lparr>create_stream = (\<lambda>_. Inl BackendError),
                 create = (\<lambda>_. Inl BackendError)\<rparr>"

definition broken_stream :: stream where
  "broken_stream = Stream_chunk (chunk_of ''Once'') Stream_throws"

definition breaking_ai :: openai where
  "breaking_ai = \<lparr>create_stream = (\<lambda>_. Inr broken_stream),
                  create = (\<lambda>_. Inr (Completion []))\<rparr>"

subsection \<open>Handlers that overlap\<close>

text \<open>
  The message handler is an \<open>async\<close> function and nothing queues the events: an
  invocation gives up control at \<open>await openai.chat.completions.create(...)\<close> and,
  in streaming mode, at each read of the next chunk in \<open>for await\<close>. Messages that
  arrive meanwhile are handled in between. The model below has these suspension
  points. \<open>ws_on_message\<close> and \<open>run\<close> above are the schedule in which every
  invocation reaches its end before the next event is handled.

  With overlapping invocations it matters that a history is an array shared by
  reference: an invocation keeps the array it read from the map in its variable
  \<open>conversation\<close> and pushes to that array when it resumes, whatever the map holds
  by then. The arrays are therefore kept in a store, addressed by the order of their
  creation, and the map \<open>sessions\<close> holds addresses.
\<close>

text \<open>
  What a suspended invocation of the prompt branch waits for: the answer to the
  streaming call, the next chunk of the stream (with \<open>responseTokens\<close> so far), or
  the answer to the non-streaming call. The answer of the backend is fixed when the
  call is made, from the conversation as it is then.
\<close>

datatype awaiting =
    Awaiting_stream "error + stream"
  | Awaiting_chunk stream "string list"
  | Awaiting_completion "error + completion"

record task =
  task_conversation :: nat
  task_awaiting :: awaiting

record server =
  arrays :: "chat_message list list"
  session_refs :: "jsval \<Rightarrow> nat option"
  socket_callSid :: jsval
  socket_sent :: "outbound list"
  console_lines :: "(string \<times> jsval) list"
  suspended :: "task list"

text \<open>The history stored under a call identifier.\<close>

definition history :: "server \<Rightarrow> jsval \<Rightarrow> chat_message list option" where
  "history w c = (case session_refs w c of None \<Rightarrow> None | Some a \<Rightarrow> Some (arrays w ! a))"

definition array_push :: "nat \<Rightarrow> chat_message \<Rightarrow> server \<Rightarrow> server" where
  "array_push a m w = w\<lparr>arrays := (arrays w)[a := arrays w ! a @ [m]]\<rparr>"

definition socket_send :: "outbound \<Rightarrow> server \<Rightarrow> server" where
  "socket_send m w = w\<lparr>socket_sent := socket_sent w @ [m]\<rparr>"

definition log_line :: "string \<Rightarrow> jsval \<Rightarrow> server \<Rightarrow> server" where
  "log_line label v w = w\<lparr>console_lines := console_lines w @ [(label, v)]\<rparr>"

text \<open>The setup branch: the new array gets the next address.\<close>

definition arrive_setup :: "message \<Rightarrow> server \<Rightarrow> server" where
  "arrive_setup message w =
     log_line ''Call setup:'' (callSid message)
       (w\<lparr>socket_callSid := callSid message,
          arrays := arrays w @ [[\<lparr>role = System, content = Str SYSTEM_PROMPT\<rparr>]],
          session_refs := (session_refs w)(callSid message \<mapsto> length (arrays w))\<rparr>)"

text \<open>
  The prompt branch up to its first \<open>await\<close>: the user message is pushed and logged,
  the backend is called with the conversation, and the invocation is suspended.
\<close>

definition arrive_prompt :: "bool \<Rightarrow> openai \<Rightarrow> message \<Rightarrow> server \<Rightarrow> (error + unit) \<times> server" where
  "arrive_prompt USE_STREAMING ai message w =
     (case session_refs w (socket_callSid w) of
        None \<Rightarrow> (Inl TypeError, w)
      | Some a \<Rightarrow>
          (let w1 = log_line ''User response:'' (voicePrompt message)
                      (array_push a \<lparr>role = User, content = voicePrompt message\<rparr> w);
               call = (if USE_STREAMING
                       then Awaiting_stream (create_stream ai (arrays w1 ! a))
                       else Awaiting_completion (create ai (arrays w1 ! a)))
           in (Inr (),
               w1\<lparr>suspended := suspended w1 @
                    [\<lparr>task_conversation = a, task_awaiting = call\<rparr>]\<rparr>)))"

text \<open>
  The handler from the arrival of a message to its end or its first \<open>await\<close>. A
  message of type prompt is of no other type, so nothing is left to do for it after
  the prompt branch.
\<close>

definition arrive :: "bool \<Rightarrow> openai \<Rightarrow> frame \<Rightarrow> server \<Rightarrow> (error + unit) \<times> server" where
  "arrive USE_STREAMING ai data w =
     (case data of
        Malformed \<Rightarrow> (Inl SyntaxError, w)
      | Json_null \<Rightarrow> (Inl TypeError, w)
      | Json message \<Rightarrow>
          (let w1 = (if type message = ''setup'' then arrive_setup message w else w)
           in if type message = ''prompt''
              then arrive_prompt USE_STREAMING ai message w1
              else (Inr (),
                    if type message = ''interrupt''
                    then log_line ''Call interrupted:'' (socket_callSid w1) w1
                    else w1)))"

text \<open>
  A suspended invocation that holds the array at address \<open>a\<close> goes on to its next
  \<open>await\<close> (\<open>Inr (Some ...)\<close>), to its end (\<open>Inr None\<close>) or to a throw.
\<close>

fun resume :: "nat \<Rightarrow> awaiting \<Rightarrow> server \<Rightarrow> (error + awaiting option) \<times> server" where
  "resume a (Awaiting_stream (Inl e)) w = (Inl e, w)"
| "resume a (Awaiting_stream (Inr stream)) w = (Inr (Some (Awaiting_chunk stream [])), w)"
| "resume a (Awaiting_chunk (Stream_chunk ch rest) responseTokens) w =
     (let content' = chunk_content ch in
      if content' \<noteq> ''''
      then (Inr (Some (Awaiting_chunk rest (responseTokens @ [content']))),
            socket_send \<lparr>otype = ''text'', token = Str content', last_flag = False\<rparr> w)
      else (Inr (Some (Awaiting_chunk rest responseTokens)), w))"
| "resume a (Awaiting_chunk Stream_throws responseTokens) w = (Inl BackendError, w)"
| "resume a (Awaiting_chunk Stream_end responseTokens) w =
     (let response = Str (concat responseTokens) in
      (Inr None,
       log_line ''AI response:'' response
         (array_push a \<lparr>role = Assistant, content = response\<rparr>
           (socket_send \<lparr>otype = ''text'', token = Str '''', last_flag = True\<rparr> w))))"
| "resume a (Awaiting_completion (Inl e)) w = (Inl e, w)"
| "resume a (Awaiting_completion (Inr completion)) w =
     (case message_contents completion of
        [] \<Rightarrow> (Inl TypeError, w)
      | response # _ \<Rightarrow>
          (Inr None,
           log_line ''AI response:'' response
             (array_push a \<lparr>role = Assistant, content = response\<rparr>
               (socket_send \<lparr>otype = ''text'', token = response, last_flag = True\<rparr> w))))"

text \<open>
  What can happen next on a connection: a message arrives, the suspended invocation
  number \<open>i\<close> (in the order of suspension) gets what it waits for, or the socket
  closes. An invocation that ends or throws is no longer suspended.
\<close>

datatype occurrence = Arrives openai frame | Resumes nat | Closes

definition resume_task :: "nat \<Rightarrow> server \<Rightarrow> (error + unit) \<times> server" where
  "resume_task i w =
     (if i < length (suspended w)
      then (let t = suspended w ! i;
                others = take i (suspended w) @ drop (Suc i) (suspended w)
            in case resume (task_conversation t) (task_awaiting t) w of
                 (Inl e, w1) \<Rightarrow> (Inl e, w1\<lparr>suspended := others\<rparr>)
               | (Inr None, w1) \<Rightarrow> (Inr (), w1\<lparr>suspended := others\<rparr>)
               | (Inr (Some aw), w1) \<Rightarrow>
                   (Inr (), w1\<lparr>suspended := (suspended w)[i := t\<lparr>task_awaiting := aw\<rparr>]\<rparr>))
      else (Inr (), w))"

definition close_socket :: "server \<Rightarrow> server" where
  "close_socket w =
     (let w1 = log_line ''WebSocket connection closed'' Undefined w
      in w1\<lparr>session_refs := (session_refs w1)(socket_callSid w1 := None)\<rparr>)"

fun occur :: "bool \<Rightarrow> occurrence \<Rightarrow> server \<Rightarrow> (error + unit) \<times> server" where
  "occur USE_STREAMING (Arrives ai data) w = arrive USE_STREAMING ai data w"
| "occur USE_STREAMING (Resumes i) w = resume_task i w"
| "occur USE_STREAMING Closes w = (Inr (), close_socket w)"

text \<open>A schedule is run until an invocation throws.\<close>

fun interleave :: "bool \<Rightarrow> occurrence list \<Rightarrow> server \<Rightarrow> (error + unit) \<times> server" where
  "interleave USE_STREAMING [] w = (Inr (), w)"
| "interleave USE_STREAMING (x # xs) w =
     (case occur USE_STREAMING x w of
        (Inl err, w1) \<Rightarrow> (Inl err, w1)
      | (Inr _, w1) \<Rightarrow> interleave USE_STREAMING xs w1)"

text \<open>
  A schedule is serial from a state when no message arrives, and the socket does not
  close, while an invocation is suspended.
\<close>

fun serial :: "bool \<Rightarrow> occurrence list \<Rightarrow> server \<Rightarrow> bool" where
  "serial USE_STREAMING [] w = True"
| "serial USE_STREAMING (x # xs) w =
     ((case x of Resumes i \<Rightarrow> True | _ \<Rightarrow> suspended w = []) \<and>
      (case occur USE_STREAMING x w of
         (Inl err, w1) \<Rightarrow> True
       | (Inr _, w1) \<Rightarrow> serial USE_STREAMING xs w1))"

text \<open>The prompts that arrive in a schedule, in order.\<close>

fun arriving_prompts :: "occurrence list \<Rightarrow> message list" where
  "arriving_prompts [] = []"
| "arriving_prompts (Arrives ai (Json message) # xs) = message # arriving_prompts xs"
| "arriving_prompts (x # xs) = arriving_prompts xs"

fun prompt_or_resumption :: "occurrence \<Rightarrow> bool" where
  "prompt_or_resumption (Arrives ai (Json message)) = (type message = ''prompt'')"
| "prompt_or_resumption (Resumes i) = True"
| "prompt_or_resumption x = False"

text \<open>A server that has just started, with a socket that has just connected.\<close>

definition started :: server where
  "started = \<lparr>arrays = [], session_refs = Map.empty, socket_callSid = Undefined,
              socket_sent = [], console_lines = [], suspended = []\<rparr>"

text \<open>
  The user and assistant messages of a list of turns, given the text of each prompt
  and the response to it.
\<close>

definition exchanges :: "message list \<Rightarrow> jsval list \<Rightarrow> chat_message list" where
  "exchanges ms rs =
     concat (map (\<lambda>(m, r). [\<lparr>role = User, content = voicePrompt m\<rparr>,
                              \<lparr>role = Assistant, content = r\<rparr>]) (zip ms rs))"

text \<open>
  A state of the server seen as a state of the one-handler-at-a-time model, the
  condition that the map holds addresses of existing arrays and no address twice
  (every setup creates a new array), and the events of a schedule.
\<close>

definition view :: "server \<Rightarrow> state" where
  "view w = \<lparr>sessions = history w, ws_callSid = socket_callSid w,
             ws_sent = socket_sent w, console = console_lines w\<rparr>"

definition well_formed :: "server \<Rightarrow> bool" where
  "well_formed w =
     ((\<forall>c a. session_refs w c = Some a \<longrightarrow> a < length (arrays w)) \<and>
      (\<forall>c c' a. session_refs w c = Some a \<and> session_refs w c' = Some a \<longrightarrow> c = c'))"

fun external :: "occurrence list \<Rightarrow> event list" where
  "external [] = []"
| "external (Arrives ai data # xs) = Message ai data # external xs"
| "external (Closes # xs) = Close # external xs"
| "external (Resumes i # xs) = external xs"

section \<open>Properties\<close>

subsection \<open>Basic facts about the state\<close>

lemma ws_send_simps [simp]:
  "sessions (ws_send m st) = sessions st"
  "ws_callSid (ws_send m st) = ws_callSid st"
  "ws_sent (ws_send m st) = ws_sent st @ [m]"
  "console (ws_send m st) = console st"
  by (simp_all add: ws_send_def)

lemma console_log_simps [simp]:
  "sessions (console_log l v st) = sessions st"
  "ws_callSid (console_log l v st) = ws_callSid st"
  "ws_sent (console_log l v st) = ws_sent st"
  "console (console_log l v st) = console st @ [(l, v)]"
  by (simp_all add: console_log_def)

lemma sent_since_append [simp]:
  "ws_sent st' = ws_sent st @ ms \<Longrightarrow> sent_since st st' = ms"
  by (simp add: sent_since_def)

lemma fragment_simps [simp]:
  "last_flag (text_fragment s) = False"
  "token (text_fragment s) = Str s"
  "token_text (text_fragment s) = s"
  "last_flag final_marker = True"
  "token final_marker = Str ''''"
  by (simp_all add: text_fragment_def final_marker_def token_text_def)

lemma filter_fragments [simp]:
  "filter (\<lambda>m. \<not> last_flag m) (map text_fragment fs) = map text_fragment fs"
  "filter last_flag (map text_fragment fs) = []"
  "map token_text (map text_fragment fs) = fs"
  by (induction fs) simp_all

lemma fragments_nonempty: "'''' \<notin> set (fragments s)"
  by (simp add: fragments_def)

lemma concat_fragments: "concat (fragments s) = concat (map chunk_content (chunks s))"
  unfolding fragments_def by (induction s) auto

subsection \<open>What generateAIResponse computes\<close>

text \<open>
  The loop sends the fragments of the stream in order and returns them after the
  tokens it started with, unless the stream throws.
\<close>

lemma for_await_eq:
  "for_await s toks st =
     (if ends_normally s then Inr (toks @ fragments s) else Inl BackendError,
      st\<lparr>ws_sent := ws_sent st @ map text_fragment (fragments s)\<rparr>)"
proof (induction s arbitrary: toks st)
  case (Stream_chunk ch rest)
  show ?case
    by (simp add: Stream_chunk.IH fragments_def ws_send_def Let_def)
qed (simp_all add: fragments_def)

lemma generate_streaming:
  "generateAIResponse True ai conv st =
     (case create_stream ai conv of
        Inl e \<Rightarrow> (Inl e, st)
      | Inr s \<Rightarrow>
          if ends_normally s
          then (Inr (Str (concat (fragments s))),
                st\<lparr>ws_sent := ws_sent st @ map text_fragment (fragments s) @ [final_marker]\<rparr>)
          else (Inl BackendError,
                st\<lparr>ws_sent := ws_sent st @ map text_fragment (fragments s)\<rparr>))"
  by (simp add: generateAIResponse_def for_await_eq ws_send_def split: sum.splits)

lemma generate_batch:
  "generateAIResponse False ai conv st =
     (case create ai conv of
        Inl e \<Rightarrow> (Inl e, st)
      | Inr c \<Rightarrow>
          (case message_contents c of
             [] \<Rightarrow> (Inl TypeError, st)
           | response # _ \<Rightarrow>
               (Inr response,
                st\<lparr>ws_sent := ws_sent st @
                     [\<lparr>otype = ''text'', token = response, last_flag = True\<rparr>]\<rparr>)))"
  by (simp add: generateAIResponse_def ws_send_def split: sum.splits list.splits)

lemma generate_frame:
  assumes "generateAIResponse streaming ai conv st = (r, st')"
  shows "sessions st' = sessions st" "ws_callSid st' = ws_callSid st" "console st' = console st"
  using assms
  by (cases streaming;
      auto simp: generate_streaming generate_batch split: sum.splits list.splits if_splits)+

subsection \<open>What the message handler computes\<close>

lemma message_is_setup:
  "type message = ''setup'' \<Longrightarrow>
     ws_on_message streaming ai (Json message) st = (Inr (), on_setup message st)"
  by (simp add: ws_on_message_def)

lemma message_is_prompt:
  "type message = ''prompt'' \<Longrightarrow>
     ws_on_message streaming ai (Json message) st = on_prompt streaming ai message st"
  by (simp add: ws_on_message_def split: prod.splits sum.splits)

lemma message_is_interrupt:
  "type message = ''interrupt'' \<Longrightarrow>
     ws_on_message streaming ai (Json message) st = (Inr (), on_interrupt st)"
  by (simp add: ws_on_message_def)

lemma message_is_other:
  "type message \<noteq> ''setup'' \<Longrightarrow> type message \<noteq> ''prompt'' \<Longrightarrow>
   type message \<noteq> ''interrupt'' \<Longrightarrow>
     ws_on_message streaming ai (Json message) st = (Inr (), st)"
  by (simp add: ws_on_message_def)

lemma prompt_streaming:
  assumes "type message = ''prompt''"
  shows "ws_on_message True ai (Json message) st =
     (case sessions st (ws_callSid st) of
        None \<Rightarrow> (Inl TypeError, st)
      | Some conversation \<Rightarrow>
          (case create_stream ai (conversation @ [user_message message]) of
             Inl e \<Rightarrow>
               (Inl e,
                st\<lparr>sessions := (sessions st)(ws_callSid st \<mapsto>
                      conversation @ [user_message message]),
                    console := console st @ [(''User response:'', voicePrompt message)]\<rparr>)
           | Inr s \<Rightarrow>
               if ends_normally s
               then (Inr (),
                     st\<lparr>sessions := (sessions st)(ws_callSid st \<mapsto>
                           conversation @
                             [user_message message,
                              assistant_message (Str (concat (fragments s)))]),
                         ws_sent := ws_sent st @ map text_fragment (fragments s) @ [final_marker],
                         console := console st @
                           [(''User response:'', voicePrompt message),
                            (''AI response:'', Str (concat (fragments s)))]\<rparr>)
               else (Inl BackendError,
                     st\<lparr>sessions := (sessions st)(ws_callSid st \<mapsto>
                           conversation @ [user_message message]),
                         ws_sent := ws_sent st @ map text_fragment (fragments s),
                         console := console st @ [(''User response:'', voicePrompt message)]\<rparr>)))"
  by (simp add: message_is_prompt [OF assms] on_prompt_def generate_streaming console_log_def
      user_message_def assistant_message_def Let_def split: option.splits sum.splits)

lemma prompt_batch:
  assumes "type message = ''prompt''"
  shows "ws_on_message False ai (Json message) st =
     (case sessions st (ws_callSid st) of
        None \<Rightarrow> (Inl TypeError, st)
      | Some conversation \<Rightarrow>
          (case create ai (conversation @ [user_message message]) of
             Inl e \<Rightarrow>
               (Inl e,
                st\<lparr>sessions := (sessions st)(ws_callSid st \<mapsto>
                      conversation @ [user_message message]),
                    console := console st @ [(''User response:'', voicePrompt message)]\<rparr>)
           | Inr c \<Rightarrow>
               (case message_contents c of
                  [] \<Rightarrow>
                    (Inl TypeError,
                     st\<lparr>sessions := (sessions st)(ws_callSid st \<mapsto>
                           conversation @ [user_message message]),
                         console := console st @ [(''User response:'', voicePrompt message)]\<rparr>)
                | response # _ \<Rightarrow>
                    (Inr (),
                     st\<lparr>sessions := (sessions st)(ws_callSid st \<mapsto>
                           conversation @ [user_message message, assistant_message response]),
                         ws_sent := ws_sent st @
                           [\<lparr>otype = ''text'', token = response, last_flag = True\<rparr>],
                         console := console st @
                           [(''User response:'', voicePrompt message),
                            (''AI response:'', response)]\<rparr>))))"
  by (simp add: message_is_prompt [OF assms] on_prompt_def generate_batch console_log_def
      user_message_def assistant_message_def Let_def split: option.splits sum.splits list.splits)

text \<open>Evaluation of the example backends.\<close>

lemma story_fragments: "fragments story_stream = [''Once'', ''upon'', ''a time'']"
  by (simp add: fragments_def story_stream_def chunk_of_def chunk_content_def)

lemma silent_fragments: "fragments silent_stream = []"
  by (simp add: fragments_def silent_stream_def chunk_of_def chunk_content_def)

lemma broken_fragments: "fragments broken_stream = [''Once'']"
  by (simp add: fragments_def broken_stream_def chunk_of_def chunk_content_def)

lemma example_streams_end:
  "ends_normally story_stream" "ends_normally silent_stream" "\<not> ends_normally broken_stream"
  by (simp_all add: story_stream_def silent_stream_def broken_stream_def)

lemma after_setup:
  "on_setup (setup_message c) initial =
     \<lparr>sessions = [c \<mapsto> [system_message]], ws_callSid = c, ws_sent = [],
      console = [(''Call setup:'', c)]\<rparr>"
  by (simp add: on_setup_def setup_message_def initial_def console_log_def)


lemma example_message_simps [simp]:
  "type (setup_message c) = ''setup''" "callSid (setup_message c) = c"
  "type (prompt_message v) = ''prompt''" "voicePrompt (prompt_message v) = v"
  "type interrupt_message = ''interrupt''"
  by (simp_all add: setup_message_def prompt_message_def interrupt_message_def)

lemma map_fragment_records:
  "map text_fragment cs = map (\<lambda>c. \<lparr>otype = ''text'', token = Str c, last_flag = False\<rparr>) cs"
  by (simp add: text_fragment_def)
subsection \<open>Interruptions\<close>

text \<open>
  C8. An interrupt event is handled without any effect on the conversation store or
  on the socket. The handlers run one at a time, so no generation is in flight when
  an event is handled; the branch only writes a line to the console. For every state
  and every message of type interrupt the handler returns normally, the sessions map,
  the messages sent and \<open>ws.callSid\<close> are unchanged, and no message is sent.
\<close>

theorem interrupt_is_noop:
  assumes "type message = ''interrupt''"
    and "ws_on_message streaming ai (Json message) st = (r, st')"
  shows "r = Inr () \<and> sessions st' = sessions st \<and> ws_sent st' = ws_sent st \<and>
         ws_callSid st' = ws_callSid st \<and>
         console st' = console st @ [(''Call interrupted:'', ws_callSid st)]"
  using assms by (auto simp: message_is_interrupt on_interrupt_def)

theorem interrupt_is_noop_witness:
  "type interrupt_message = ''interrupt'' \<and>
   fst (ws_on_message True story_ai (Json interrupt_message) initial) = Inr () \<and>
   sessions (snd (ws_on_message True story_ai (Json interrupt_message) initial)) =
     sessions initial \<and>
   ws_sent (snd (ws_on_message True story_ai (Json interrupt_message) initial)) = []"
  using interrupt_is_noop [of interrupt_message True story_ai initial
      "fst (ws_on_message True story_ai (Json interrupt_message) initial)"
      "snd (ws_on_message True story_ai (Json interrupt_message) initial)"]
  by (simp add: interrupt_message_def initial_def)

subsection \<open>Streaming mode\<close>

text \<open>
  C4. In streaming mode, a call of generateAIResponse that returns has sent, after what
  was sent before and in the order the backend produced them, one message
  \<open>{ type: "text", token: c, last: false }\<close> for each chunk content \<open>c\<close> that
  is not the empty string, and then the marker
  \<open>{ type: "text", token: "", last: true }\<close>. Exactly one message of the generation
  has \<open>last: true\<close>, and it is the last message sent.
\<close>

theorem streaming_emission_order:
  assumes "generateAIResponse True ai conversation st = (Inr response, st')"
  shows "\<exists>stream. create_stream ai conversation = Inr stream \<and> ends_normally stream \<and>
           ws_sent st' =
             ws_sent st @
             map (\<lambda>c. \<lparr>otype = ''text'', token = Str c, last_flag = False\<rparr>)
               (filter (\<lambda>c. c \<noteq> '''') (map chunk_content (chunks stream))) @
             [\<lparr>otype = ''text'', token = Str '''', last_flag = True\<rparr>] \<and>
           response = Str (concat (map chunk_content (chunks stream))) \<and>
           length (filter last_flag (drop (length (ws_sent st)) (ws_sent st'))) = 1 \<and>
           last (ws_sent st') = \<lparr>otype = ''text'', token = Str '''', last_flag = True\<rparr>"
proof -
  from assms obtain stream where
    str: "create_stream ai conversation = Inr stream" and en: "ends_normally stream" and
    st': "st' = st\<lparr>ws_sent := ws_sent st @ map text_fragment (fragments stream) @ [final_marker]\<rparr>" and
    resp: "response = Str (concat (fragments stream))"
    by (auto simp: generate_streaming split: sum.splits if_splits)
  have sent: "ws_sent st' =
      ws_sent st @
      map (\<lambda>c. \<lparr>otype = ''text'', token = Str c, last_flag = False\<rparr>)
        (filter (\<lambda>c. c \<noteq> '''') (map chunk_content (chunks stream))) @
      [\<lparr>otype = ''text'', token = Str '''', last_flag = True\<rparr>]"
    by (simp add: st' map_fragment_records fragments_def final_marker_def)
  have one: "length (filter last_flag (drop (length (ws_sent st)) (ws_sent st'))) = 1"
    by (simp add: st')
  have lst: "last (ws_sent st') = \<lparr>otype = ''text'', token = Str '''', last_flag = True\<rparr>"
    by (simp add: st' final_marker_def)
  show ?thesis
    using str en sent one lst resp concat_fragments [of stream] by auto
qed

theorem streaming_emission_order_witness:
  "generateAIResponse True story_ai
     [\<lparr>role = System, content = Str ''Be brief.''\<rparr>]
     \<lparr>sessions = Map.empty, ws_callSid = Undefined, ws_sent = [], console = []\<rparr> =
     (Inr (Str ''Onceupona time''),
      \<lparr>sessions = Map.empty, ws_callSid = Undefined,
       ws_sent = [\<lparr>otype = ''text'', token = Str ''Once'', last_flag = False\<rparr>,
                  \<lparr>otype = ''text'', token = Str ''upon'', last_flag = False\<rparr>,
                  \<lparr>otype = ''text'', token = Str ''a time'', last_flag = False\<rparr>,
                  \<lparr>otype = ''text'', token = Str '''', last_flag = True\<rparr>],
       console = []\<rparr>)"
proof -
  let ?st = "\<lparr>sessions = Map.empty, ws_callSid = Undefined, ws_sent = [], console = []\<rparr>"
  let ?conv = "[\<lparr>role = System, content = Str ''Be brief.''\<rparr>]"
  obtain response st' where run: "generateAIResponse True story_ai ?conv ?st = (response, st')"
    by (cases "generateAIResponse True story_ai ?conv ?st")
  have ok: "response = Inr (Str ''Onceupona time'')"
    using run by (simp add: generate_streaming story_ai_def example_streams_end story_fragments)
  have frame: "sessions st' = Map.empty" "ws_callSid st' = Undefined" "console st' = []"
    using generate_frame [OF run] by simp_all
  from streaming_emission_order [OF run [unfolded ok]]
  have "ws_sent st' =
     [\<lparr>otype = ''text'', token = Str ''Once'', last_flag = False\<rparr>,
      \<lparr>otype = ''text'', token = Str ''upon'', last_flag = False\<rparr>,
      \<lparr>otype = ''text'', token = Str ''a time'', last_flag = False\<rparr>,
      \<lparr>otype = ''text'', token = Str '''', last_flag = True\<rparr>]"
    by (auto simp: story_ai_def story_stream_def chunk_of_def chunk_content_def)
  then have "st' = \<lparr>sessions = Map.empty, ws_callSid = Undefined,
       ws_sent = [\<lparr>otype = ''text'', token = Str ''Once'', last_flag = False\<rparr>,
                  \<lparr>otype = ''text'', token = Str ''upon'', last_flag = False\<rparr>,
                  \<lparr>otype = ''text'', token = Str ''a time'', last_flag = False\<rparr>,
                  \<lparr>otype = ''text'', token = Str '''', last_flag = True\<rparr>],
       console = []\<rparr>"
    using frame by (cases st') simp
  then show ?thesis
    using run ok by simp
qed

text \<open>
  C3. In streaming mode, when the handler of a prompt completes, the assistant message
  appended to the history is the concatenation, in order and with nothing in between,
  of the tokens of the non-final messages sent during the turn; that text is the
  concatenation of the contents of all the chunks the backend yielded, and each of
  these tokens is a non-empty string.
\<close>

theorem streaming_assistant_is_concatenation:
  assumes "type message = ''prompt''"
    and "ws_on_message True ai (Json message) st = (Inr (), st')"
  shows "\<exists>conversation stream.
      sessions st (ws_callSid st) = Some conversation \<and>
      create_stream ai (conversation @ [user_message message]) = Inr stream \<and>
      sessions st' (ws_callSid st) =
        Some (conversation @
          [user_message message,
           assistant_message
             (Str (concat (map token_text (filter (\<lambda>m. \<not> last_flag m) (sent_since st st')))))]) \<and>
      concat (map token_text (filter (\<lambda>m. \<not> last_flag m) (sent_since st st'))) =
        concat (map chunk_content (chunks stream)) \<and>
      (\<forall>m \<in> set (filter (\<lambda>m. \<not> last_flag m) (sent_since st st')).
         \<exists>s. token m = Str s \<and> s \<noteq> '''')"
proof -
  from assms(2) obtain conversation stream where
    conv: "sessions st (ws_callSid st) = Some conversation" and
    str: "create_stream ai (conversation @ [user_message message]) = Inr stream" and
    st': "st' = st\<lparr>sessions := (sessions st)(ws_callSid st \<mapsto>
                  conversation @
                    [user_message message, assistant_message (Str (concat (fragments stream)))]),
                ws_sent := ws_sent st @ map text_fragment (fragments stream) @ [final_marker],
                console := console st @
                  [(''User response:'', voicePrompt message),
                   (''AI response:'', Str (concat (fragments stream)))]\<rparr>"
    unfolding prompt_streaming [OF assms(1)]
    by (auto split: option.splits sum.splits if_splits)
  have sent: "sent_since st st' = map text_fragment (fragments stream) @ [final_marker]"
    by (rule sent_since_append) (simp add: st')
  have nonfinal: "filter (\<lambda>m. \<not> last_flag m) (sent_since st st') =
      map text_fragment (fragments stream)"
    by (simp add: sent)
  have texts: "map token_text (filter (\<lambda>m. \<not> last_flag m) (sent_since st st')) =
      fragments stream"
    unfolding nonfinal by (rule filter_fragments(3))
  have "sessions st' (ws_callSid st) =
      Some (conversation @
        [user_message message, assistant_message (Str (concat (fragments stream)))])"
    by (simp add: st')
  moreover have "\<forall>m \<in> set (map text_fragment (fragments stream)).
      \<exists>s. token m = Str s \<and> s \<noteq> ''''"
    using fragments_nonempty [of stream] by auto
  ultimately show ?thesis
    unfolding texts unfolding nonfinal using conv str concat_fragments [of stream] by blast
qed

theorem streaming_assistant_is_concatenation_witness:
  "sessions (snd (ws_on_message True story_ai (Json (prompt_message (Str ''tell me a story'')))
       (on_setup (setup_message (Str ''CA2'')) initial))) (Str ''CA2'') =
     Some [system_message,
           user_message (prompt_message (Str ''tell me a story'')),
           assistant_message (Str ''Onceupona time'')] \<and>
   ws_sent (snd (ws_on_message True story_ai (Json (prompt_message (Str ''tell me a story'')))
       (on_setup (setup_message (Str ''CA2'')) initial))) =
     [text_fragment ''Once'', text_fragment ''upon'', text_fragment ''a time'', final_marker]"
proof -
  let ?st = "on_setup (setup_message (Str ''CA2'')) initial"
  let ?m = "prompt_message (Str ''tell me a story'')"
  have ty: "type ?m = ''prompt''"
    by (simp add: prompt_message_def)
  have res: "ws_on_message True story_ai (Json ?m) ?st =
      (Inr (), snd (ws_on_message True story_ai (Json ?m) ?st))"
    by (simp add: prompt_streaming [OF ty] after_setup story_ai_def example_streams_end)
  have sent: "ws_sent (snd (ws_on_message True story_ai (Json ?m) ?st)) =
     [text_fragment ''Once'', text_fragment ''upon'', text_fragment ''a time'', final_marker]"
    by (simp add: prompt_streaming [OF ty] after_setup story_ai_def example_streams_end
        story_fragments)
  from streaming_assistant_is_concatenation [OF ty res] show ?thesis
    using sent by (auto simp: after_setup sent_since_def)
qed

text \<open>
  C10. In streaming mode, when the stream ends without throwing and none of its chunks
  has a non-empty content, the generation completes: generateAIResponse sends the one
  message \<open>{ type: "text", token: "", last: true }\<close> and nothing else and returns
  the empty string, and the handler of the prompt returns normally after appending,
  behind the user message, an assistant message whose content is the empty string.
  No error is raised.
\<close>

theorem streaming_empty_response:
  assumes "type message = ''prompt''"
    and "sessions st (ws_callSid st) = Some conversation"
    and "create_stream ai (conversation @ [\<lparr>role = User, content = voicePrompt message\<rparr>]) =
           Inr stream"
    and "ends_normally stream"
    and "\<forall>ch \<in> set (chunks stream). chunk_content ch = ''''"
  shows "generateAIResponse True ai
           (conversation @ [\<lparr>role = User, content = voicePrompt message\<rparr>]) st =
           (Inr (Str ''''),
            st\<lparr>ws_sent := ws_sent st @
                  [\<lparr>otype = ''text'', token = Str '''', last_flag = True\<rparr>]\<rparr>) \<and>
         ws_on_message True ai (Json message) st =
           (Inr (),
            st\<lparr>sessions := (sessions st)(ws_callSid st \<mapsto>
                  conversation @
                    [\<lparr>role = User, content = voicePrompt message\<rparr>,
                     \<lparr>role = Assistant, content = Str ''''\<rparr>]),
                ws_sent := ws_sent st @
                  [\<lparr>otype = ''text'', token = Str '''', last_flag = True\<rparr>],
                console := console st @
                  [(''User response:'', voicePrompt message), (''AI response:'', Str '''')]\<rparr>)"
proof -
  have "fragments stream = []"
    using assms(5) by (simp add: fragments_def filter_empty_conv)
  then show ?thesis
    using assms(2-4)
    by (simp add: prompt_streaming [OF assms(1)] generate_streaming user_message_def
        assistant_message_def final_marker_def)
qed

theorem streaming_empty_response_witness:
  "ws_on_message True silent_ai
     (Json \<lparr>type = ''prompt'', callSid = Undefined, voicePrompt = Str ''hello''\<rparr>)
     \<lparr>sessions = [Str ''CA3'' \<mapsto> [\<lparr>role = System, content = Str ''Be brief.''\<rparr>]],
      ws_callSid = Str ''CA3'', ws_sent = [], console = []\<rparr> =
     (Inr (),
      \<lparr>sessions = [Str ''CA3'' \<mapsto>
          [\<lparr>role = System, content = Str ''Be brief.''\<rparr>,
           \<lparr>role = User, content = Str ''hello''\<rparr>,
           \<lparr>role = Assistant, content = Str ''''\<rparr>]],
       ws_callSid = Str ''CA3'',
       ws_sent = [\<lparr>otype = ''text'', token = Str '''', last_flag = True\<rparr>],
       console = [(''User response:'', Str ''hello''), (''AI response:'', Str '''')]\<rparr>)"
proof -
  let ?st = "\<lparr>sessions = [Str ''CA3'' \<mapsto> [\<lparr>role = System, content = Str ''Be brief.''\<rparr>]],
      ws_callSid = Str ''CA3'', ws_sent = [], console = []\<rparr>"
  let ?m = "\<lparr>type = ''prompt'', callSid = Undefined, voicePrompt = Str ''hello''\<rparr>"
  have ty: "type ?m = ''prompt''"
    by simp
  have conv: "sessions ?st (ws_callSid ?st) = Some [\<lparr>role = System, content = Str ''Be brief.''\<rparr>]"
    by simp
  have str: "create_stream silent_ai
      ([\<lparr>role = System, content = Str ''Be brief.''\<rparr>] @
       [\<lparr>role = User, content = voicePrompt ?m\<rparr>]) = Inr silent_stream"
    by (simp add: silent_ai_def)
  have empty: "\<forall>ch \<in> set (chunks silent_stream). chunk_content ch = ''''"
    by (simp add: silent_stream_def chunk_of_def chunk_content_def)
  from streaming_empty_response [OF ty conv str example_streams_end(2) empty]
  show ?thesis
    by simp
qed

subsection \<open>Batch mode\<close>

text \<open>
  C5, as the code has it. In batch mode, when the handler of a prompt completes, exactly
  one message has been sent for the turn: its token is the content of the first
  choice of the completion, which is also the content of the assistant message
  appended to the history, and its \<open>last\<close> flag is true. No separate marker with
  an empty token follows.
\<close>

theorem batch_sends_one_message:
  assumes "type message = ''prompt''"
    and "ws_on_message False ai (Json message) st = (Inr (), st')"
  shows "\<exists>conversation response rest.
      sessions st (ws_callSid st) = Some conversation \<and>
      create ai (conversation @ [user_message message]) = Inr (Completion (response # rest)) \<and>
      ws_sent st' = ws_sent st @ sent_since st st' \<and>
      sent_since st st' = [\<lparr>otype = ''text'', token = response, last_flag = True\<rparr>] \<and>
      sessions st' (ws_callSid st) =
        Some (conversation @ [user_message message, assistant_message response])"
proof -
  from assms(2) obtain conversation c response rest where
    conv: "sessions st (ws_callSid st) = Some conversation" and
    cr: "create ai (conversation @ [user_message message]) = Inr c" and
    c: "message_contents c = response # rest" and
    st': "st' = st\<lparr>sessions := (sessions st)(ws_callSid st \<mapsto>
                  conversation @ [user_message message, assistant_message response]),
                ws_sent := ws_sent st @
                  [\<lparr>otype = ''text'', token = response, last_flag = True\<rparr>],
                console := console st @
                  [(''User response:'', voicePrompt message), (''AI response:'', response)]\<rparr>"
    unfolding prompt_batch [OF assms(1)]
    by (auto split: option.splits sum.splits list.splits)
  have "c = Completion (response # rest)"
    using c by (cases c) simp
  then show ?thesis
    using conv cr by (simp add: st')
qed

theorem batch_sends_one_message_witness:
  "ws_on_message False story_ai (Json (prompt_message (Str ''hello'')))
     (on_setup (setup_message (Str ''CA1'')) initial) =
     (Inr (), snd (ws_on_message False story_ai (Json (prompt_message (Str ''hello'')))
        (on_setup (setup_message (Str ''CA1'')) initial))) \<and>
   sessions (snd (ws_on_message False story_ai (Json (prompt_message (Str ''hello'')))
       (on_setup (setup_message (Str ''CA1'')) initial))) (Str ''CA1'') =
     Some [system_message, user_message (prompt_message (Str ''hello'')),
           assistant_message (Str ''hi there'')] \<and>
   sent_since (on_setup (setup_message (Str ''CA1'')) initial)
     (snd (ws_on_message False story_ai (Json (prompt_message (Str ''hello'')))
       (on_setup (setup_message (Str ''CA1'')) initial))) =
     [\<lparr>otype = ''text'', token = Str ''hi there'', last_flag = True\<rparr>]"
proof -
  let ?st = "on_setup (setup_message (Str ''CA1'')) initial"
  let ?m = "prompt_message (Str ''hello'')"
  have ty: "type ?m = ''prompt''"
    by (simp add: prompt_message_def)
  have res: "ws_on_message False story_ai (Json ?m) ?st =
      (Inr (), snd (ws_on_message False story_ai (Json ?m) ?st))"
    by (simp add: prompt_batch [OF ty] after_setup story_ai_def)
  from batch_sends_one_message [OF ty res] show ?thesis
    using res by (auto simp: after_setup story_ai_def)
qed

text \<open>
  The claim C5 as written asks for two messages, a content fragment and then a marker
  with an empty token. The scenario of the specification, a set-up call "CA1" and the
  prompt "hello" answered with "hi there", sends one message.
\<close>

theorem batch_two_messages_counterexample:
  "fst (run False [Message story_ai (Json (setup_message (Str ''CA1''))),
                   Message story_ai (Json (prompt_message (Str ''hello'')))] initial) = Inr () \<and>
   ws_sent (snd (run False [Message story_ai (Json (setup_message (Str ''CA1''))),
                   Message story_ai (Json (prompt_message (Str ''hello'')))] initial)) =
     [\<lparr>otype = ''text'', token = Str ''hi there'', last_flag = True\<rparr>]"
  by (simp add: message_is_setup setup_message_def prompt_batch prompt_message_def
      on_setup_def initial_def story_ai_def)

subsection \<open>Prompts without a session\<close>

text \<open>
  C1, as the code has it. A prompt that arrives while \<open>ws.callSid\<close> has no session in
  the store makes the handler throw a TypeError at \<open>conversation.push\<close>, before
  anything else happens: the sessions map is not changed, no message is sent and
  nothing is written to the console. The code has no NotFound condition and no
  handler for the error.
\<close>

theorem prompt_without_session:
  assumes "type message = ''prompt''"
    and "sessions st (ws_callSid st) = None"
  shows "ws_on_message streaming ai (Json message) st = (Inl TypeError, st)"
  using assms by (simp add: message_is_prompt on_prompt_def)

theorem prompt_without_session_witness:
  "sessions initial (ws_callSid initial) = None \<and>
   ws_on_message True story_ai
     (Json \<lparr>type = ''prompt'', callSid = Str ''CA9'', voicePrompt = Str ''hello''\<rparr>) initial =
     (Inl TypeError, initial)"
  using prompt_without_session
    [of "\<lparr>type = ''prompt'', callSid = Str ''CA9'', voicePrompt = Str ''hello''\<rparr>"
      initial True story_ai]
  by (simp add: initial_def)

text \<open>
  The claim C1 as written has the event dropped and a NotFound condition logged. On a
  socket that has just connected, a prompt (here one that carries the call identifier
  "CA9") ends the handler with a TypeError, and the console stays empty.
\<close>

theorem prompt_not_found_counterexample:
  "fst (ws_on_message True story_ai
     (Json \<lparr>type = ''prompt'', callSid = Str ''CA9'', voicePrompt = Str ''hello''\<rparr>) initial) =
     Inl TypeError \<and>
   console (snd (ws_on_message True story_ai
     (Json \<lparr>type = ''prompt'', callSid = Str ''CA9'', voicePrompt = Str ''hello''\<rparr>) initial)) =
     []"
  by (simp add: ws_on_message_def on_prompt_def initial_def)

subsection \<open>Repeated setup\<close>

text \<open>
  C7, as the code has it. A setup event never fails: \<open>sessions.set\<close> stores a fresh
  history holding only the system message under the call identifier of the message,
  whether or not that identifier already had a session, and \<open>ws.callSid\<close> becomes
  that identifier. An existing history is overwritten.
\<close>

theorem setup_overwrites:
  assumes "type message = ''setup''"
  shows "ws_on_message streaming ai (Json message) st =
     (Inr (),
      st\<lparr>sessions := (sessions st)(callSid message \<mapsto> [system_message]),
          ws_callSid := callSid message,
          console := console st @ [(''Call setup:'', callSid message)]\<rparr>)"
  using assms by (simp add: message_is_setup on_setup_def console_log_def)

theorem setup_overwrites_witness:
  "sessions (snd (ws_on_message True story_ai (Json (setup_message (Str ''CA1'')))
     (initial\<lparr>sessions := [Str ''CA1'' \<mapsto> [system_message, user_message (prompt_message (Str ''hello''))]]\<rparr>)))
     (Str ''CA1'') = Some [system_message]"
  using setup_overwrites [of "setup_message (Str ''CA1'')" True story_ai
      "initial\<lparr>sessions := [Str ''CA1'' \<mapsto> [system_message, user_message (prompt_message (Str ''hello''))]]\<rparr>"]
  by (simp add: setup_message_def)

text \<open>
  The claim C7 as written has the second setup fail and the existing history kept.
  After setup "CA1" and one completed turn the history has three messages; a second
  setup "CA1" returns normally and the history is the system message only.
\<close>

theorem duplicate_setup_counterexample:
  "sessions (snd (run False
      [Message story_ai (Json (setup_message (Str ''CA1''))),
       Message story_ai (Json (prompt_message (Str ''hello'')))] initial)) (Str ''CA1'') =
     Some [system_message, user_message (prompt_message (Str ''hello'')),
           assistant_message (Str ''hi there'')] \<and>
   fst (run False
      [Message story_ai (Json (setup_message (Str ''CA1''))),
       Message story_ai (Json (prompt_message (Str ''hello''))),
       Message story_ai (Json (setup_message (Str ''CA1'')))] initial) = Inr () \<and>
   sessions (snd (run False
      [Message story_ai (Json (setup_message (Str ''CA1''))),
       Message story_ai (Json (prompt_message (Str ''hello''))),
       Message story_ai (Json (setup_message (Str ''CA1'')))] initial)) (Str ''CA1'') =
     Some [system_message]"
  by (simp add: message_is_setup setup_message_def prompt_batch prompt_message_def
      on_setup_def initial_def story_ai_def)

subsection \<open>Backend failures\<close>

text \<open>
  C6, as the code has it. A prompt arrives for an existing session and the backend
  call fails: the call is rejected, the stream throws, or (in batch mode) the
  completion has no choice. In each case the error leaves the handler uncaught, the
  history of the session has gained the user message and no assistant message, every
  other entry of the sessions map is unchanged, and no terminal marker is sent. What
  has been sent is exactly this: nothing when the call is rejected or the completion
  has no choice; when the stream throws, one message with \<open>last: false\<close> for each
  non-empty chunk content that came before the throw.
\<close>

theorem backend_failure:
  assumes "type message = ''prompt''"
    and "sessions st (ws_callSid st) = Some conversation"
  shows
    "let conversation1 = conversation @ [\<lparr>role = User, content = voicePrompt message\<rparr>];
         st1 = st\<lparr>sessions := (sessions st)(ws_callSid st \<mapsto> conversation1),
                  console := console st @ [(''User response:'', voicePrompt message)]\<rparr>
     in (\<forall>e. create_stream ai conversation1 = Inl e \<longrightarrow>
            ws_on_message True ai (Json message) st = (Inl e, st1)) \<and>
        (\<forall>stream. create_stream ai conversation1 = Inr stream \<and> \<not> ends_normally stream \<longrightarrow>
            ws_on_message True ai (Json message) st =
              (Inl BackendError,
               st1\<lparr>ws_sent := ws_sent st @
                     map (\<lambda>c. \<lparr>otype = ''text'', token = Str c, last_flag = False\<rparr>)
                       (filter (\<lambda>c. c \<noteq> '''') (map chunk_content (chunks stream)))\<rparr>)) \<and>
        (\<forall>e. create ai conversation1 = Inl e \<longrightarrow>
            ws_on_message False ai (Json message) st = (Inl e, st1)) \<and>
        (\<forall>completion. create ai conversation1 = Inr completion \<and>
            message_contents completion = [] \<longrightarrow>
            ws_on_message False ai (Json message) st = (Inl TypeError, st1))"
proof -
  let ?conversation1 = "conversation @ [\<lparr>role = User, content = voicePrompt message\<rparr>]"
  let ?st1 = "st\<lparr>sessions := (sessions st)(ws_callSid st \<mapsto> ?conversation1),
                console := console st @ [(''User response:'', voicePrompt message)]\<rparr>"
  have um: "conversation @ [user_message message] = ?conversation1"
    by (simp add: user_message_def)
  have rejected_stream: "ws_on_message True ai (Json message) st = (Inl e, ?st1)"
    if "create_stream ai ?conversation1 = Inl e" for e
    using that assms(2) by (simp add: prompt_streaming [OF assms(1)] um)
  have thrown: "ws_on_message True ai (Json message) st =
      (Inl BackendError,
       ?st1\<lparr>ws_sent := ws_sent st @
             map (\<lambda>c. \<lparr>otype = ''text'', token = Str c, last_flag = False\<rparr>)
               (filter (\<lambda>c. c \<noteq> '''') (map chunk_content (chunks stream)))\<rparr>)"
    if "create_stream ai ?conversation1 = Inr stream" and "\<not> ends_normally stream" for stream
    using that assms(2)
    by (simp add: prompt_streaming [OF assms(1)] um map_fragment_records fragments_def)
  have rejected_batch: "ws_on_message False ai (Json message) st = (Inl e, ?st1)"
    if "create ai ?conversation1 = Inl e" for e
    using that assms(2) by (simp add: prompt_batch [OF assms(1)] um)
  have no_choice: "ws_on_message False ai (Json message) st = (Inl TypeError, ?st1)"
    if "create ai ?conversation1 = Inr completion" and "message_contents completion = []"
    for completion
    using that assms(2) by (simp add: prompt_batch [OF assms(1)] um)
  show ?thesis
    unfolding Let_def using rejected_stream thrown rejected_batch no_choice by blast
qed

theorem backend_failure_witness:
  "ws_on_message True failing_ai
     (Json \<lparr>type = ''prompt'', callSid = Undefined, voicePrompt = Str ''hello''\<rparr>)
     \<lparr>sessions = [Str ''CA1'' \<mapsto> [\<lparr>role = System, content = Str ''Be brief.''\<rparr>]],
      ws_callSid = Str ''CA1'', ws_sent = [], console = []\<rparr> =
     (Inl BackendError,
      \<lparr>sessions = [Str ''CA1'' \<mapsto>
          [\<lparr>role = System, content = Str ''Be brief.''\<rparr>,
           \<lparr>role = User, content = Str ''hello''\<rparr>]],
       ws_callSid = Str ''CA1'', ws_sent = [],
       console = [(''User response:'', Str ''hello'')]\<rparr>) \<and>
   ws_on_message True breaking_ai
     (Json \<lparr>type = ''prompt'', callSid = Undefined, voicePrompt = Str ''hello''\<rparr>)
     \<lparr>sessions = [Str ''CA1'' \<mapsto> [\<lparr>role = System, content = Str ''Be brief.''\<rparr>]],
      ws_callSid = Str ''CA1'', ws_sent = [], console = []\<rparr> =
     (Inl BackendError,
      \<lparr>sessions = [Str ''CA1'' \<mapsto>
          [\<lparr>role = System, content = Str ''Be brief.''\<rparr>,
           \<lparr>role = User, content = Str ''hello''\<rparr>]],
       ws_callSid = Str ''CA1'',
       ws_sent = [\<lparr>otype = ''text'', token = Str ''Once'', last_flag = False\<rparr>],
       console = [(''User response:'', Str ''hello'')]\<rparr>) \<and>
   ws_on_message False failing_ai
     (Json \<lparr>type = ''prompt'', callSid = Undefined, voicePrompt = Str ''hello''\<rparr>)
     \<lparr>sessions = [Str ''CA1'' \<mapsto> [\<lparr>role = System, content = Str ''Be brief.''\<rparr>]],
      ws_callSid = Str ''CA1'', ws_sent = [], console = []\<rparr> =
     (Inl BackendError,
      \<lparr>sessions = [Str ''CA1'' \<mapsto>
          [\<lparr>role = System, content = Str ''Be brief.''\<rparr>,
           \<lparr>role = User, content = Str ''hello''\<rparr>]],
       ws_callSid = Str ''CA1'', ws_sent = [],
       console = [(''User response:'', Str ''hello'')]\<rparr>) \<and>
   ws_on_message False breaking_ai
     (Json \<lparr>type = ''prompt'', callSid = Undefined, voicePrompt = Str ''hello''\<rparr>)
     \<lparr>sessions = [Str ''CA1'' \<mapsto> [\<lparr>role = System, content = Str ''Be brief.''\<rparr>]],
      ws_callSid = Str ''CA1'', ws_sent = [], console = []\<rparr> =
     (Inl TypeError,
      \<lparr>sessions = [Str ''CA1'' \<mapsto>
          [\<lparr>role = System, content = Str ''Be brief.''\<rparr>,
           \<lparr>role = User, content = Str ''hello''\<rparr>]],
       ws_callSid = Str ''CA1'', ws_sent = [],
       console = [(''User response:'', Str ''hello'')]\<rparr>)"
proof -
  let ?st = "\<lparr>sessions = [Str ''CA1'' \<mapsto> [\<lparr>role = System, content = Str ''Be brief.''\<rparr>]],
      ws_callSid = Str ''CA1'', ws_sent = [], console = []\<rparr>"
  let ?m = "\<lparr>type = ''prompt'', callSid = Undefined, voicePrompt = Str ''hello''\<rparr>"
  let ?conv1 = "[\<lparr>role = System, content = Str ''Be brief.''\<rparr>] @
      [\<lparr>role = User, content = voicePrompt ?m\<rparr>]"
  have ty: "type ?m = ''prompt''"
    by simp
  have conv: "sessions ?st (ws_callSid ?st) = Some [\<lparr>role = System, content = Str ''Be brief.''\<rparr>]"
    by simp
  have rejected: "create_stream failing_ai ?conv1 = Inl BackendError"
      "create failing_ai ?conv1 = Inl BackendError"
    by (simp_all add: failing_ai_def)
  have broken: "create_stream breaking_ai ?conv1 = Inr broken_stream"
      "\<not> ends_normally broken_stream"
      "create breaking_ai ?conv1 = Inr (Completion [])"
      "message_contents (Completion []) = []"
    by (simp_all add: breaking_ai_def broken_stream_def)
  have sent: "filter (\<lambda>c. c \<noteq> '''') (map chunk_content (chunks broken_stream)) = [''Once'']"
    by (simp add: broken_stream_def chunk_of_def chunk_content_def)
  show ?thesis
    using backend_failure [OF ty conv, of failing_ai] backend_failure [OF ty conv, of breaking_ai]
      rejected broken sent
    by (simp add: Let_def)
qed

text \<open>
  The claim C6 as written has a terminal marker emitted. With a backend that rejects
  the call, the prompt after setup "CA1" ends with the backend's error and nothing
  at all has been sent.
\<close>

theorem backend_failure_marker_counterexample:
  "fst (run True
      [Message failing_ai (Json (setup_message (Str ''CA1''))),
       Message failing_ai (Json (prompt_message (Str ''hello'')))] initial) = Inl BackendError \<and>
   ws_sent (snd (run True
      [Message failing_ai (Json (setup_message (Str ''CA1''))),
       Message failing_ai (Json (prompt_message (Str ''hello'')))] initial)) = []"
  by (simp add: message_is_setup setup_message_def prompt_streaming prompt_message_def
      on_setup_def initial_def failing_ai_def)

subsection \<open>The history after completed turns\<close>

lemma server_update_simps [simp]:
  "arrays (socket_send m w) = arrays w"
  "session_refs (socket_send m w) = session_refs w"
  "socket_callSid (socket_send m w) = socket_callSid w"
  "socket_sent (socket_send m w) = socket_sent w @ [m]"
  "console_lines (socket_send m w) = console_lines w"
  "suspended (socket_send m w) = suspended w"
  "arrays (log_line l v w) = arrays w"
  "session_refs (log_line l v w) = session_refs w"
  "socket_callSid (log_line l v w) = socket_callSid w"
  "socket_sent (log_line l v w) = socket_sent w"
  "console_lines (log_line l v w) = console_lines w @ [(l, v)]"
  "suspended (log_line l v w) = suspended w"
  "arrays (array_push a x w) = (arrays w)[a := arrays w ! a @ [x]]"
  "session_refs (array_push a x w) = session_refs w"
  "socket_callSid (array_push a x w) = socket_callSid w"
  "socket_sent (array_push a x w) = socket_sent w"
  "console_lines (array_push a x w) = console_lines w"
  "suspended (array_push a x w) = suspended w"
  by (simp_all add: socket_send_def log_line_def array_push_def)

lemma exchanges_simps [simp]:
  "exchanges [] rs = []"
  "exchanges (m # ms) (r # rs) =
     \<lparr>role = User, content = voicePrompt m\<rparr> # \<lparr>role = Assistant, content = r\<rparr> #
     exchanges ms rs"
  by (simp_all add: exchanges_def)

lemma length_exchanges: "length rs = length ms \<Longrightarrow> length (exchanges ms rs) = 2 * length ms"
  by (induction ms rs rule: list_induct2') (simp_all add: exchanges_def)

text \<open>
  One resumption leaves the map, the socket's call identifier and the number of
  arrays alone; it changes an array only when the invocation ends, and then by
  pushing one assistant message to the array the invocation holds.
\<close>

lemma resume_effect:
  assumes "resume a aw w = (r, w1)"
  shows "session_refs w1 = session_refs w \<and> socket_callSid w1 = socket_callSid w \<and>
         suspended w1 = suspended w \<and>
         (if r = Inr None
          then \<exists>response. arrays w1 =
                 (arrays w)[a := arrays w ! a @ [\<lparr>role = Assistant, content = response\<rparr>]]
          else arrays w1 = arrays w)"
  using assms
  by (induction a aw w rule: resume.induct)
     (auto simp: Let_def split: if_splits list.splits)

lemma arrive_prompt_effect:
  assumes "type message = ''prompt''" and "session_refs w (socket_callSid w) = Some a"
  shows "\<exists>w1 t. arrive streaming ai (Json message) w = (Inr (), w1) \<and>
           session_refs w1 = session_refs w \<and> socket_callSid w1 = socket_callSid w \<and>
           arrays w1 = (arrays w)[a := arrays w ! a @
             [\<lparr>role = User, content = voicePrompt message\<rparr>]] \<and>
           suspended w1 = suspended w @ [t] \<and> task_conversation t = a"
  using assms by (simp add: arrive_def arrive_prompt_def Let_def)

lemma serial_turns:
  assumes "\<forall>x \<in> set xs. prompt_or_resumption x"
    and "serial streaming xs w"
    and "interleave streaming xs w = (Inr (), w')"
    and "suspended w' = []"
    and "session_refs w (socket_callSid w) = Some a"
    and "a < length (arrays w)"
  shows "(suspended w = [] \<longrightarrow>
           (\<exists>rs. length rs = length (arriving_prompts xs) \<and>
              arrays w' ! a = arrays w ! a @ exchanges (arriving_prompts xs) rs \<and>
              session_refs w' (socket_callSid w) = Some a)) \<and>
         (\<forall>t. suspended w = [t] \<and> task_conversation t = a \<longrightarrow>
           (\<exists>r rs. length rs = length (arriving_prompts xs) \<and>
              arrays w' ! a =
                arrays w ! a @ \<lparr>role = Assistant, content = r\<rparr> #
                  exchanges (arriving_prompts xs) rs \<and>
              session_refs w' (socket_callSid w) = Some a))"
  using assms
proof (induction xs arbitrary: w)
  case Nil
  then show ?case by auto
next
  case (Cons x xs)
  have rest_ok: "\<forall>x \<in> set xs. prompt_or_resumption x"
    using Cons.prems(1) by simp
  show ?case
  proof (cases x)
    case Closes
    then show ?thesis using Cons.prems(1) by simp
  next
    case (Arrives ai data)
    then obtain message where data: "data = Json message" and ty: "type message = ''prompt''"
      using Cons.prems(1) by (cases data) auto
    have quiet: "suspended w = []"
      using Cons.prems(2) Arrives by simp
    from arrive_prompt_effect [OF ty Cons.prems(5), of streaming ai] obtain w1 t where
      step: "arrive streaming ai (Json message) w = (Inr (), w1)" and
      refs: "session_refs w1 = session_refs w" and cs: "socket_callSid w1 = socket_callSid w" and
      arr: "arrays w1 = (arrays w)[a := arrays w ! a @
             [\<lparr>role = User, content = voicePrompt message\<rparr>]]" and
      sus: "suspended w1 = [t]" and conv: "task_conversation t = a"
      using quiet by auto
    have ser: "serial streaming xs w1" and run: "interleave streaming xs w1 = (Inr (), w')"
      using Cons.prems(2,3) Arrives data step by simp_all
    have refs1: "session_refs w1 (socket_callSid w1) = Some a" and len1: "a < length (arrays w1)"
      using Cons.prems(5,6) by (simp_all add: refs cs arr)
    from Cons.IH [OF rest_ok ser run Cons.prems(4) refs1 len1] sus conv obtain r rs where
      len: "length rs = length (arriving_prompts xs)" and
      fin: "arrays w' ! a = arrays w1 ! a @ \<lparr>role = Assistant, content = r\<rparr> #
              exchanges (arriving_prompts xs) rs" and
      ref': "session_refs w' (socket_callSid w1) = Some a"
      by blast
    have "length (r # rs) = length (arriving_prompts (x # xs)) \<and>
        arrays w' ! a = arrays w ! a @ exchanges (arriving_prompts (x # xs)) (r # rs) \<and>
        session_refs w' (socket_callSid w) = Some a"
      using len fin ref' Cons.prems(6) by (simp add: Arrives data arr cs)
    then have "\<exists>rs. length rs = length (arriving_prompts (x # xs)) \<and>
        arrays w' ! a = arrays w ! a @ exchanges (arriving_prompts (x # xs)) rs \<and>
        session_refs w' (socket_callSid w) = Some a"
      by (rule exI [of _ "r # rs"])
    then show ?thesis
      using quiet by simp
  next
    case (Resumes i)
    show ?thesis
    proof (cases "i < length (suspended w)")
      case False
      then have step: "occur streaming x w = (Inr (), w)"
        by (simp add: Resumes resume_task_def)
      have ser: "serial streaming xs w" and run: "interleave streaming xs w = (Inr (), w')"
        using Cons.prems(2,3) step by simp_all
      from Cons.IH [OF rest_ok ser run Cons.prems(4-6)] show ?thesis
        by (simp add: Resumes)
    next
      case True
      let ?t = "suspended w ! i"
      obtain r w1 where res: "resume (task_conversation ?t) (task_awaiting ?t) w = (r, w1)"
        by (cases "resume (task_conversation ?t) (task_awaiting ?t) w")
      note eff = resume_effect [OF res]
      have not_quiet: "suspended w \<noteq> []"
        using True by auto
      have part2: "\<exists>r rs. length rs = length (arriving_prompts (x # xs)) \<and>
              arrays w' ! a =
                arrays w ! a @ \<lparr>role = Assistant, content = r\<rparr> #
                  exchanges (arriving_prompts (x # xs)) rs \<and>
              session_refs w' (socket_callSid w) = Some a"
        if one: "suspended w = [t]" and conv: "task_conversation t = a" for t
      proof -
        have i0: "i = 0" and t: "?t = t"
          using True one by simp_all
        show ?thesis
        proof (cases r)
          case (Inl e)
          then show ?thesis
            using Cons.prems(3) res True by (simp add: Resumes resume_task_def Let_def)
        next
          case (Inr next_await)
          show ?thesis
          proof (cases next_await)
            case None
            let ?w2 = "w1\<lparr>suspended := []\<rparr>"
            have step: "occur streaming x w = (Inr (), ?w2)"
              using res True Inr None one i0 by (simp add: Resumes resume_task_def Let_def)
            have ser: "serial streaming xs ?w2" and run: "interleave streaming xs ?w2 = (Inr (), w')"
              using Cons.prems(2,3) step by simp_all
            from eff Inr None obtain response where
              arr: "arrays w1 = (arrays w)[task_conversation ?t :=
                  arrays w ! task_conversation ?t @ [\<lparr>role = Assistant, content = response\<rparr>]]"
              by auto
            have refs2: "session_refs ?w2 (socket_callSid ?w2) = Some a"
              and len2: "a < length (arrays ?w2)"
              using Cons.prems(5,6) eff by (simp_all add: arr)
            from Cons.IH [OF rest_ok ser run Cons.prems(4) refs2 len2] obtain rs where
              "length rs = length (arriving_prompts xs)" and
              "arrays w' ! a = arrays ?w2 ! a @ exchanges (arriving_prompts xs) rs" and
              "session_refs w' (socket_callSid ?w2) = Some a"
              by auto
            then show ?thesis
              using eff Cons.prems(6) by (auto simp: Resumes arr t conv)
          next
            case (Some aw)
            let ?w2 = "w1\<lparr>suspended := [t\<lparr>task_awaiting := aw\<rparr>]\<rparr>"
            have step: "occur streaming x w = (Inr (), ?w2)"
              using res True Inr Some one i0 t by (simp add: Resumes resume_task_def Let_def)
            have ser: "serial streaming xs ?w2" and run: "interleave streaming xs ?w2 = (Inr (), w')"
              using Cons.prems(2,3) step by simp_all
            have arr: "arrays w1 = arrays w"
              using eff Inr Some by simp
            have refs2: "session_refs ?w2 (socket_callSid ?w2) = Some a"
              and len2: "a < length (arrays ?w2)"
              using Cons.prems(5,6) eff by (simp_all add: arr)
            from Cons.IH [OF rest_ok ser run Cons.prems(4) refs2 len2] conv obtain r' rs where
              "length rs = length (arriving_prompts xs)" and
              "arrays w' ! a = arrays ?w2 ! a @ \<lparr>role = Assistant, content = r'\<rparr> #
                  exchanges (arriving_prompts xs) rs" and
              "session_refs w' (socket_callSid ?w2) = Some a"
              by auto
            then show ?thesis
              using eff by (auto simp: Resumes arr)
          qed
        qed
      qed
      show ?thesis
        using not_quiet part2 by blast
    qed
  qed
qed

text \<open>
  C2, as the code has it. A setup arrives and then N prompts, on one connection, in a
  schedule in which no message arrives while an invocation of the handler is
  suspended; no invocation throws and none is left suspended at the end. Then the
  history stored under the call identifier of the setup has 1 + 2N messages: the
  system message with the fixed prompt, followed for each prompt, in the order of
  arrival, by the user message with its text and an assistant message. This holds in
  both modes, from any state of the server in which the schedule is serial.
\<close>

theorem history_after_serial_turns:
  assumes "type m0 = ''setup''"
    and "\<forall>x \<in> set xs. prompt_or_resumption x"
    and "serial streaming (Arrives ai0 (Json m0) # xs) w"
    and "interleave streaming (Arrives ai0 (Json m0) # xs) w = (Inr (), w')"
    and "suspended w' = []"
  shows "\<exists>responses stored.
           length responses = length (arriving_prompts xs) \<and>
           history w' (callSid m0) = Some stored \<and>
           stored =
             \<lparr>role = System,
              content = Str ''You are a helpful voice assistant. Speak naturally, avoid emojis and special characters.''\<rparr> #
             concat (map (\<lambda>(m, r). [\<lparr>role = User, content = voicePrompt m\<rparr>,
                                      \<lparr>role = Assistant, content = r\<rparr>])
                         (zip (arriving_prompts xs) responses)) \<and>
           length stored = 1 + 2 * length (arriving_prompts xs)"
proof -
  let ?w1 = "arrive_setup m0 w"
  let ?a = "length (arrays w)"
  have quiet: "suspended w = []"
    using assms(3) by simp
  have step: "occur streaming (Arrives ai0 (Json m0)) w = (Inr (), ?w1)"
    using assms(1) by (simp add: arrive_def)
  have ser: "serial streaming xs ?w1" and run: "interleave streaming xs ?w1 = (Inr (), w')"
    using assms(3,4) step by simp_all
  have cs: "socket_callSid ?w1 = callSid m0"
    and refs: "session_refs ?w1 (socket_callSid ?w1) = Some ?a"
    and len: "?a < length (arrays ?w1)"
    and first: "arrays ?w1 ! ?a = [\<lparr>role = System, content = Str SYSTEM_PROMPT\<rparr>]"
    and quiet1: "suspended ?w1 = []"
    using quiet by (simp_all add: arrive_setup_def)
  from serial_turns [OF assms(2) ser run assms(5) refs len] quiet1 obtain rs where
    n: "length rs = length (arriving_prompts xs)" and
    fin: "arrays w' ! ?a = arrays ?w1 ! ?a @ exchanges (arriving_prompts xs) rs" and
    ref': "session_refs w' (socket_callSid ?w1) = Some ?a"
    by blast
  have "history w' (callSid m0) =
      Some (\<lparr>role = System, content = Str SYSTEM_PROMPT\<rparr> # exchanges (arriving_prompts xs) rs)"
    using fin ref' by (simp add: history_def cs first)
  then show ?thesis
    using n length_exchanges [OF n]
    by (intro exI [of _ rs]) (simp add: exchanges_def SYSTEM_PROMPT_def)
qed

theorem history_after_serial_turns_witness:
  "interleave True
     [Arrives story_ai (Json \<lparr>type = ''setup'', callSid = Str ''CA2'', voicePrompt = Undefined\<rparr>),
      Arrives story_ai
        (Json \<lparr>type = ''prompt'', callSid = Undefined, voicePrompt = Str ''tell me a story''\<rparr>),
      Resumes 0, Resumes 0, Resumes 0, Resumes 0, Resumes 0,
      Arrives silent_ai
        (Json \<lparr>type = ''prompt'', callSid = Undefined, voicePrompt = Str ''and then?''\<rparr>),
      Resumes 0, Resumes 0, Resumes 0, Resumes 0, Resumes 0, Resumes 0] started =
     (Inr (),
      \<lparr>arrays =
         [[\<lparr>role = System,
            content = Str ''You are a helpful voice assistant. Speak naturally, avoid emojis and special characters.''\<rparr>,
           \<lparr>role = User, content = Str ''tell me a story''\<rparr>,
           \<lparr>role = Assistant, content = Str ''Onceupona time''\<rparr>,
           \<lparr>role = User, content = Str ''and then?''\<rparr>,
           \<lparr>role = Assistant, content = Str ''''\<rparr>]],
       session_refs = [Str ''CA2'' \<mapsto> 0],
       socket_callSid = Str ''CA2'',
       socket_sent =
         [\<lparr>otype = ''text'', token = Str ''Once'', last_flag = False\<rparr>,
          \<lparr>otype = ''text'', token = Str ''upon'', last_flag = False\<rparr>,
          \<lparr>otype = ''text'', token = Str ''a time'', last_flag = False\<rparr>,
          \<lparr>otype = ''text'', token = Str '''', last_flag = True\<rparr>,
          \<lparr>otype = ''text'', token = Str '''', last_flag = True\<rparr>],
       console_lines =
         [(''Call setup:'', Str ''CA2''),
          (''User response:'', Str ''tell me a story''),
          (''AI response:'', Str ''Onceupona time''),
          (''User response:'', Str ''and then?''),
          (''AI response:'', Str '''')],
       suspended = []\<rparr>)"
proof -
  let ?m0 = "\<lparr>type = ''setup'', callSid = Str ''CA2'', voicePrompt = Undefined\<rparr>"
  let ?m1 = "\<lparr>type = ''prompt'', callSid = Undefined, voicePrompt = Str ''tell me a story''\<rparr>"
  let ?m2 = "\<lparr>type = ''prompt'', callSid = Undefined, voicePrompt = Str ''and then?''\<rparr>"
  let ?xs = "[Arrives story_ai (Json ?m1),
      Resumes 0, Resumes 0, Resumes 0, Resumes 0, Resumes 0,
      Arrives silent_ai (Json ?m2),
      Resumes 0, Resumes 0, Resumes 0, Resumes 0, Resumes 0, Resumes 0]"
  note ev = arrive_def arrive_setup_def arrive_prompt_def resume_task_def Let_def started_def
    log_line_def array_push_def socket_send_def story_ai_def story_stream_def silent_ai_def
    silent_stream_def chunk_of_def chunk_content_def SYSTEM_PROMPT_def
  have res: "interleave True (Arrives story_ai (Json ?m0) # ?xs) started =
      (Inr (), snd (interleave True (Arrives story_ai (Json ?m0) # ?xs) started))"
    by (simp add: ev)
  have fin: "snd (interleave True (Arrives story_ai (Json ?m0) # ?xs) started) =
     \<lparr>arrays =
         [[\<lparr>role = System,
            content = Str ''You are a helpful voice assistant. Speak naturally, avoid emojis and special characters.''\<rparr>,
           \<lparr>role = User, content = Str ''tell me a story''\<rparr>,
           \<lparr>role = Assistant, content = Str ''Onceupona time''\<rparr>,
           \<lparr>role = User, content = Str ''and then?''\<rparr>,
           \<lparr>role = Assistant, content = Str ''''\<rparr>]],
       session_refs = [Str ''CA2'' \<mapsto> 0],
       socket_callSid = Str ''CA2'',
       socket_sent =
         [\<lparr>otype = ''text'', token = Str ''Once'', last_flag = False\<rparr>,
          \<lparr>otype = ''text'', token = Str ''upon'', last_flag = False\<rparr>,
          \<lparr>otype = ''text'', token = Str ''a time'', last_flag = False\<rparr>,
          \<lparr>otype = ''text'', token = Str '''', last_flag = True\<rparr>,
          \<lparr>otype = ''text'', token = Str '''', last_flag = True\<rparr>],
       console_lines =
         [(''Call setup:'', Str ''CA2''),
          (''User response:'', Str ''tell me a story''),
          (''AI response:'', Str ''Onceupona time''),
          (''User response:'', Str ''and then?''),
          (''AI response:'', Str '''')],
       suspended = []\<rparr>"
    by (simp add: ev)
  have ty: "type ?m0 = ''setup''"
    by simp
  have ps: "\<forall>x \<in> set ?xs. prompt_or_resumption x"
    by simp
  have ser: "serial True (Arrives story_ai (Json ?m0) # ?xs) started"
    by (simp add: ev)
  have quiet: "suspended (snd (interleave True (Arrives story_ai (Json ?m0) # ?xs) started)) = []"
    unfolding fin by simp
  from history_after_serial_turns [OF ty ps ser res quiet] show ?thesis
    using res fin by simp
qed

text \<open>
  The claim C2 as written holds for every sequence of events in which the generations
  complete. Nothing in the code makes a prompt wait for the generation before it:
  when a second prompt arrives while the first generation is awaited, both user
  messages are pushed before either assistant message. Both generations complete,
  and the history is system, user, user, assistant, assistant.
\<close>

theorem overlapping_prompts_counterexample:
  "interleave True
     [Arrives story_ai (Json \<lparr>type = ''setup'', callSid = Str ''CA1'', voicePrompt = Undefined\<rparr>),
      Arrives story_ai (Json \<lparr>type = ''prompt'', callSid = Undefined, voicePrompt = Str ''one''\<rparr>),
      Arrives silent_ai (Json \<lparr>type = ''prompt'', callSid = Undefined, voicePrompt = Str ''two''\<rparr>),
      Resumes 0, Resumes 0, Resumes 0, Resumes 0, Resumes 0,
      Resumes 0, Resumes 0, Resumes 0, Resumes 0, Resumes 0, Resumes 0] started =
     (Inr (),
      \<lparr>arrays =
         [[\<lparr>role = System,
            content = Str ''You are a helpful voice assistant. Speak naturally, avoid emojis and special characters.''\<rparr>,
           \<lparr>role = User, content = Str ''one''\<rparr>,
           \<lparr>role = User, content = Str ''two''\<rparr>,
           \<lparr>role = Assistant, content = Str ''Onceupona time''\<rparr>,
           \<lparr>role = Assistant, content = Str ''''\<rparr>]],
       session_refs = [Str ''CA1'' \<mapsto> 0],
       socket_callSid = Str ''CA1'',
       socket_sent =
         [\<lparr>otype = ''text'', token = Str ''Once'', last_flag = False\<rparr>,
          \<lparr>otype = ''text'', token = Str ''upon'', last_flag = False\<rparr>,
          \<lparr>otype = ''text'', token = Str ''a time'', last_flag = False\<rparr>,
          \<lparr>otype = ''text'', token = Str '''', last_flag = True\<rparr>,
          \<lparr>otype = ''text'', token = Str '''', last_flag = True\<rparr>],
       console_lines =
         [(''Call setup:'', Str ''CA1''),
          (''User response:'', Str ''one''),
          (''User response:'', Str ''two''),
          (''AI response:'', Str ''Onceupona time''),
          (''AI response:'', Str '''')],
       suspended = []\<rparr>)"
  by (simp add: arrive_def arrive_setup_def arrive_prompt_def resume_task_def Let_def started_def
      log_line_def array_push_def socket_send_def story_ai_def story_stream_def silent_ai_def
      silent_stream_def chunk_of_def chunk_content_def SYSTEM_PROMPT_def)

subsection \<open>A second setup on the same connection\<close>

lemma on_prompt_frame:
  assumes "ws_callSid st \<noteq> c"
  shows "sessions (snd (on_prompt streaming ai message st)) c = sessions st c \<and>
         ws_callSid (snd (on_prompt streaming ai message st)) = ws_callSid st"
proof (cases "sessions st (ws_callSid st)")
  case None
  then show ?thesis by (simp add: on_prompt_def)
next
  case (Some conversation)
  let ?conversation1 = "conversation @ [\<lparr>role = User, content = voicePrompt message\<rparr>]"
  let ?st1 = "console_log ''User response:'' (voicePrompt message)
                (st\<lparr>sessions := (sessions st)(ws_callSid st \<mapsto> ?conversation1)\<rparr>)"
  obtain r st2 where gen: "generateAIResponse streaming ai ?conversation1 ?st1 = (r, st2)"
    by (cases "generateAIResponse streaming ai ?conversation1 ?st1")
  note fr = generate_frame [OF gen]
  show ?thesis
    using assms Some gen fr
    by (cases r) (simp_all add: on_prompt_def Let_def)
qed

lemma handle_frame:
  assumes "\<not> is_setup ev" and "ws_callSid st \<noteq> c"
  shows "sessions (snd (handle streaming ev st)) c = sessions st c \<and>
         ws_callSid (snd (handle streaming ev st)) = ws_callSid st"
proof (cases ev)
  case Close
  then show ?thesis
    using assms(2) by (simp add: ws_on_close_def Let_def)
next
  case (Message ai data)
  show ?thesis
  proof (cases data)
    case (Json message)
    have ns: "type message \<noteq> ''setup''"
      using assms(1) Message Json by simp
    show ?thesis
    proof (cases "type message = ''prompt''")
      case True
      then show ?thesis
        using on_prompt_frame [OF assms(2)] Message Json by (simp add: message_is_prompt)
    next
      case False
      then show ?thesis
        using ns Message Json
        by (cases "type message = ''interrupt''")
           (simp_all add: message_is_interrupt message_is_other on_interrupt_def)
    qed
  qed (simp_all add: Message ws_on_message_def)
qed

lemma run_frame:
  assumes "\<forall>ev \<in> set evs. \<not> is_setup ev" and "ws_callSid st \<noteq> c"
  shows "sessions (snd (run streaming evs st)) c = sessions st c \<and>
         ws_callSid (snd (run streaming evs st)) = ws_callSid st"
  using assms
proof (induction evs arbitrary: st)
  case Nil
  then show ?case by simp
next
  case (Cons ev evs)
  obtain r st1 where step: "handle streaming ev st = (r, st1)"
    by (cases "handle streaming ev st")
  have fr: "sessions st1 c = sessions st c \<and> ws_callSid st1 = ws_callSid st"
    using handle_frame [of ev st c streaming] Cons.prems step by simp
  show ?case
  proof (cases r)
    case (Inl e)
    then show ?thesis using step fr by simp
  next
    case (Inr u)
    have "ws_callSid st1 \<noteq> c" using fr Cons.prems(2) by simp
    from Cons.IH [OF _ this] Cons.prems(1) show ?thesis
      using step Inr fr by simp
  qed
qed

lemma run_ends_with_close:
  assumes "run streaming (evs @ [Close]) st = (Inr (), st')"
  shows "sessions st' (ws_callSid st') = None"
  using assms
proof (induction evs arbitrary: st)
  case Nil
  then show ?case by (auto simp: ws_on_close_def Let_def)
next
  case (Cons ev evs)
  then show ?case
    by (auto split: prod.splits sum.splits)
qed

text \<open>
  C9. Two setup messages with different call identifiers on one connection, followed
  by any events that are not setup messages and then by the closing of the socket.
  Whatever the later handlers do, they read and write the store only at the
  identifier of the second setup, which is the value of \<open>ws.callSid\<close> from then
  on: every other entry of the sessions map is as the two setups left it, so the
  session of the first setup is still in the store, holding the system message only,
  when the run ends. When no handler has thrown, the close handler has run and the
  session of the second setup is gone.
\<close>

theorem second_setup_rebinds:
  assumes "type m1 = ''setup''" and "type m2 = ''setup''"
    and "callSid m1 \<noteq> callSid m2"
    and "\<forall>ev \<in> set evs. \<not> is_setup ev"
    and "run streaming (Message a1 (Json m1) # Message a2 (Json m2) # evs @ [Close]) st = (r, st')"
  shows "sessions st' (callSid m1) = Some [system_message] \<and>
         (\<forall>k. k \<noteq> callSid m2 \<longrightarrow>
            sessions st' k = ((sessions st)(callSid m1 \<mapsto> [system_message])) k) \<and>
         ws_callSid st' = callSid m2 \<and>
         (r = Inr () \<longrightarrow> sessions st' (callSid m2) = None)"
proof -
  let ?st2 = "on_setup m2 (on_setup m1 st)"
  have rest: "run streaming (evs @ [Close]) ?st2 = (r, st')"
    using assms(5) by (simp add: message_is_setup assms(1,2))
  have c2: "ws_callSid ?st2 = callSid m2"
    by (simp add: on_setup_def)
  have s2: "sessions ?st2 = (sessions st)(callSid m1 \<mapsto> [system_message],
      callSid m2 \<mapsto> [system_message])"
    by (simp add: on_setup_def)
  have ns: "\<forall>ev \<in> set (evs @ [Close]). \<not> is_setup ev"
    using assms(4) by simp
  have frame: "sessions st' k = sessions ?st2 k \<and> ws_callSid st' = callSid m2"
    if "k \<noteq> callSid m2" for k
    using run_frame [OF ns, of ?st2 k streaming] that rest c2 by simp
  have "sessions st' (callSid m2) = None" if "r = Inr ()"
    using run_ends_with_close [of streaming evs ?st2 st'] rest that frame [OF assms(3)]
    by simp
  then show ?thesis
    using frame assms(3) by (auto simp: s2)
qed

theorem second_setup_rebinds_witness:
  "run True (Message story_ai (Json (setup_message (Str ''CA1''))) #
             Message story_ai (Json (setup_message (Str ''CA2''))) #
             [Message story_ai (Json (prompt_message (Str ''tell me a story'')))] @ [Close])
     initial =
     (Inr (),
      \<lparr>sessions = [Str ''CA1'' \<mapsto> [system_message]],
       ws_callSid = Str ''CA2'',
       ws_sent = [text_fragment ''Once'', text_fragment ''upon'', text_fragment ''a time'',
                  final_marker],
       console = [(''Call setup:'', Str ''CA1''), (''Call setup:'', Str ''CA2''),
                  (''User response:'', Str ''tell me a story''),
                  (''AI response:'', Str ''Onceupona time''),
                  (''WebSocket connection closed'', Undefined)]\<rparr>)"
proof -
  have res: "run True (Message story_ai (Json (setup_message (Str ''CA1''))) #
             Message story_ai (Json (setup_message (Str ''CA2''))) #
             [Message story_ai (Json (prompt_message (Str ''tell me a story'')))] @ [Close])
     initial =
     (Inr (),
      \<lparr>sessions = [Str ''CA1'' \<mapsto> [system_message]],
       ws_callSid = Str ''CA2'',
       ws_sent = [text_fragment ''Once'', text_fragment ''upon'', text_fragment ''a time'',
                  final_marker],
       console = [(''Call setup:'', Str ''CA1''), (''Call setup:'', Str ''CA2''),
                  (''User response:'', Str ''tell me a story''),
                  (''AI response:'', Str ''Onceupona time''),
                  (''WebSocket connection closed'', Undefined)]\<rparr>)"
    by (simp add: message_is_setup prompt_streaming on_setup_def initial_def console_log_def
        ws_on_close_def story_ai_def example_streams_end story_fragments fun_upd_twist)
  have ne: "callSid (setup_message (Str ''CA1'')) \<noteq> callSid (setup_message (Str ''CA2''))"
    by simp
  have ns: "\<forall>ev \<in> set [Message story_ai (Json (prompt_message (Str ''tell me a story'')))].
      \<not> is_setup ev"
    by simp
  from second_setup_rebinds [OF _ _ ne ns res] show ?thesis
    using res by simp
qed

subsection \<open>The serial runs are schedules of the server\<close>

lemma view_simps [simp]:
  "sessions (view w) = history w" "ws_callSid (view w) = socket_callSid w"
  "ws_sent (view w) = socket_sent w" "console (view w) = console_lines w"
  by (simp_all add: view_def)

lemma view_eq:
  "view w' = st \<longleftrightarrow>
     history w' = sessions st \<and> socket_callSid w' = ws_callSid st \<and>
     socket_sent w' = ws_sent st \<and> console_lines w' = console st"
  by (cases st) (auto simp: view_def)

lemma history_push:
  assumes "well_formed w" and "session_refs w c = Some a"
    and "session_refs w' = session_refs w"
    and "arrays w' = (arrays w)[a := arrays w ! a @ ms]"
  shows "history w' = (history w)(c \<mapsto> arrays w ! a @ ms)"
proof
  fix k
  show "history w' k = ((history w)(c \<mapsto> arrays w ! a @ ms)) k"
  proof (cases "session_refs w k")
    case None
    then show ?thesis
      using assms(2,3) by (auto simp: history_def)
  next
    case (Some b)
    have a: "a < length (arrays w)"
      using assms(1,2) by (auto simp: well_formed_def)
    show ?thesis
    proof (cases "b = a")
      case True
      then have "k = c"
        using assms(1,2) Some by (auto simp: well_formed_def)
      then show ?thesis
        using assms(2-4) a by (simp add: history_def)
    next
      case False
      then have "k \<noteq> c"
        using assms(2) Some by auto
      then show ?thesis
        using assms(3,4) Some False by (simp add: history_def)
    qed
  qed
qed

lemma history_same:
  "session_refs w' = session_refs w \<Longrightarrow> arrays w' = arrays w \<Longrightarrow> history w' = history w"
  by (rule ext) (simp add: history_def split: option.splits)

lemma interleave_append:
  "interleave s (xs @ ys) w =
     (case interleave s xs w of
        (Inl e, w1) \<Rightarrow> (Inl e, w1)
      | (Inr u, w1) \<Rightarrow> interleave s ys w1)"
  by (induction xs arbitrary: w) (auto split: prod.splits sum.splits)

lemma serial_append:
  "serial s (xs @ ys) w =
     (serial s xs w \<and>
      (case interleave s xs w of (Inl e, w1) \<Rightarrow> True | (Inr u, w1) \<Rightarrow> serial s ys w1))"
  by (induction xs arbitrary: w) (auto split: prod.splits sum.splits)

lemma serial_resumptions: "serial s (replicate n (Resumes i)) w"
  by (induction n arbitrary: w) (auto split: prod.splits sum.splits)

lemma external_append: "external (xs @ ys) = external xs @ external ys"
  by (induction xs rule: external.induct) simp_all

lemma external_resumptions: "external (replicate n (Resumes i)) = []"
  by (induction n) simp_all

lemma fragments_simps [simp]:
  "fragments Stream_end = []" "fragments Stream_throws = []"
  "fragments (Stream_chunk ch rest) =
     (if chunk_content ch \<noteq> '''' then chunk_content ch # fragments rest else fragments rest)"
  by (simp_all add: fragments_def)

text \<open>
  Reading a stream to its end without anything in between does what the loop of
  generateAIResponse and the rest of the handler do.
\<close>

lemma drain_stream:
  assumes "suspended w = [t]" and "task_awaiting t = Awaiting_chunk s toks"
    and "task_conversation t = a"
  shows "interleave streaming (replicate (Suc (length (chunks s))) (Resumes 0)) w =
     (if ends_normally s
      then (Inr (),
            log_line ''AI response:'' (Str (concat (toks @ fragments s)))
              (array_push a \<lparr>role = Assistant, content = Str (concat (toks @ fragments s))\<rparr>
                (w\<lparr>socket_sent := socket_sent w @ map text_fragment (fragments s) @ [final_marker],
                   suspended := []\<rparr>)))
      else (Inl BackendError,
            w\<lparr>socket_sent := socket_sent w @ map text_fragment (fragments s),
              suspended := []\<rparr>))"
  using assms
proof (induction s arbitrary: w t toks)
  case Stream_end
  then show ?case
    by (simp add: resume_task_def Let_def log_line_def array_push_def socket_send_def
        final_marker_def)
next
  case Stream_throws
  then show ?case
    by (simp add: resume_task_def Let_def)
next
  case (Stream_chunk ch rest)
  let ?c = "chunk_content ch"
  let ?toks = "if ?c \<noteq> '''' then toks @ [?c] else toks"
  let ?t = "t\<lparr>task_awaiting := Awaiting_chunk rest ?toks\<rparr>"
  let ?w = "(if ?c \<noteq> '''' then socket_send (text_fragment ?c) w else w)\<lparr>suspended := [?t]\<rparr>"
  have step: "occur streaming (Resumes 0) w = (Inr (), ?w)"
    using Stream_chunk.prems
    by (simp add: resume_task_def Let_def text_fragment_def)
  have "interleave streaming (replicate (Suc (length (chunks (Stream_chunk ch rest)))) (Resumes 0)) w =
      interleave streaming (replicate (Suc (length (chunks rest))) (Resumes 0)) ?w"
    using step by simp
  also have "\<dots> =
     (if ends_normally rest
      then (Inr (),
            log_line ''AI response:'' (Str (concat (?toks @ fragments rest)))
              (array_push a \<lparr>role = Assistant, content = Str (concat (?toks @ fragments rest))\<rparr>
                (?w\<lparr>socket_sent := socket_sent ?w @ map text_fragment (fragments rest) @ [final_marker],
                   suspended := []\<rparr>)))
      else (Inl BackendError,
            ?w\<lparr>socket_sent := socket_sent ?w @ map text_fragment (fragments rest),
              suspended := []\<rparr>))"
    by (rule Stream_chunk.IH [of ?w ?t]) (simp_all add: Stream_chunk.prems)
  also have "\<dots> =
     (if ends_normally (Stream_chunk ch rest)
      then (Inr (),
            log_line ''AI response:'' (Str (concat (toks @ fragments (Stream_chunk ch rest))))
              (array_push a \<lparr>role = Assistant,
                  content = Str (concat (toks @ fragments (Stream_chunk ch rest)))\<rparr>
                (w\<lparr>socket_sent := socket_sent w @
                     map text_fragment (fragments (Stream_chunk ch rest)) @ [final_marker],
                   suspended := []\<rparr>)))
      else (Inl BackendError,
            w\<lparr>socket_sent := socket_sent w @ map text_fragment (fragments (Stream_chunk ch rest)),
              suspended := []\<rparr>))"
    by (simp add: socket_send_def log_line_def array_push_def)
  finally show ?case .
qed

lemma well_formed_kept:
  "well_formed w \<Longrightarrow> session_refs w' = session_refs w \<Longrightarrow>
   length (arrays w') = length (arrays w) \<Longrightarrow> well_formed w'"
  by (simp add: well_formed_def)

lemma setup_view:
  assumes "well_formed w"
  shows "view (arrive_setup message w) = on_setup message (view w)"
    and "well_formed (arrive_setup message w)"
proof -
  have old: "b < length (arrays w)" if "session_refs w k = Some b" for k b
    using assms that by (auto simp: well_formed_def)
  have "history (arrive_setup message w) k =
      ((history w)(callSid message \<mapsto> [system_message])) k" for k
    using old [of k]
    by (auto simp: history_def arrive_setup_def system_message_def nth_append
        split: option.splits)
  then have "history (arrive_setup message w) = (history w)(callSid message \<mapsto> [system_message])"
    by (rule ext)
  then show "view (arrive_setup message w) = on_setup message (view w)"
    by (simp add: view_eq on_setup_def) (simp add: arrive_setup_def)
  show "well_formed (arrive_setup message w)"
    using assms unfolding well_formed_def arrive_setup_def
    by (auto simp: less_Suc_eq split: if_splits)
qed

text \<open>
  A message that arrives while nothing is suspended, followed without anything in
  between by the resumptions of its invocation, does what \<open>ws_on_message\<close> does.
\<close>

lemma handler_block:
  assumes wf: "well_formed w" and quiet: "suspended w = []"
  shows "\<exists>n w'. interleave streaming (Arrives ai data # replicate n (Resumes 0)) w =
             (fst (ws_on_message streaming ai data (view w)), w') \<and>
           view w' = snd (ws_on_message streaming ai data (view w)) \<and>
           suspended w' = [] \<and> well_formed w'"
    (is "\<exists>n w'. ?block n w'")
proof (cases data)
  case Malformed
  then have "?block 0 w"
    using wf quiet by (simp add: arrive_def ws_on_message_def)
  then show ?thesis by blast
next
  case Json_null
  then have "?block 0 w"
    using wf quiet by (simp add: arrive_def ws_on_message_def)
  then show ?thesis by blast
next
  case (Json message)
  consider (a_setup) "type message = ''setup''" | (a_prompt) "type message = ''prompt''"
    | (an_interrupt) "type message = ''interrupt''"
    | (another) "type message \<noteq> ''setup''" "type message \<noteq> ''prompt''"
        "type message \<noteq> ''interrupt''"
    by blast
  then show ?thesis
  proof cases
    case a_setup
    then have "?block 0 (arrive_setup message w)"
      using setup_view [OF wf, of message] quiet
      by (simp add: Json arrive_def message_is_setup) (simp add: arrive_setup_def)
    then show ?thesis by blast
  next
    case an_interrupt
    let ?w' = "log_line ''Call interrupted:'' (socket_callSid w) w"
    have "history ?w' = history w"
      by (rule history_same) simp_all
    then have "view ?w' = on_interrupt (view w)"
      by (simp add: view_eq on_interrupt_def)
    moreover have "well_formed ?w'"
      by (rule well_formed_kept [OF wf]) simp_all
    ultimately have "?block 0 ?w'"
      using an_interrupt quiet
      by (simp add: Json arrive_def message_is_interrupt)
    then show ?thesis by blast
  next
    case another
    then have "?block 0 w"
      using wf quiet by (simp add: Json arrive_def message_is_other)
    then show ?thesis by blast
  next
    case a_prompt
    show ?thesis
    proof (cases "session_refs w (socket_callSid w)")
      case None
      then have "history w (socket_callSid w) = None"
        by (simp add: history_def)
      then have "ws_on_message streaming ai data (view w) = (Inl TypeError, view w)"
        by (simp add: Json message_is_prompt [OF a_prompt] on_prompt_def)
      then have "?block 0 w"
        using None a_prompt wf quiet by (simp add: Json arrive_def arrive_prompt_def)
      then show ?thesis by blast
    next
      case (Some a)
      let ?c = "socket_callSid w"
      let ?u = "\<lparr>role = User, content = voicePrompt message\<rparr>"
      let ?conv = "arrays w ! a"
      have a: "a < length (arrays w)"
        using wf Some by (auto simp: well_formed_def)
      have hist: "history w ?c = Some ?conv"
        by (simp add: history_def Some)
      have um: "user_message message = ?u"
        by (simp add: user_message_def)
      let ?call = "if streaming then Awaiting_stream (create_stream ai (?conv @ [?u]))
                   else Awaiting_completion (create ai (?conv @ [?u]))"
      let ?t = "\<lparr>task_conversation = a, task_awaiting = ?call\<rparr>"
      let ?w1 = "(log_line ''User response:'' (voicePrompt message) (array_push a ?u w))
                   \<lparr>suspended := [?t]\<rparr>"
      have arr: "arrive streaming ai data w = (Inr (), ?w1)"
        using Some a_prompt quiet a by (simp add: Json arrive_def arrive_prompt_def Let_def)
      have failed: "?block 1 (?w1\<lparr>suspended := []\<rparr>)"
        if res: "resume a ?call ?w1 = (Inl e, ?w1)"
          and old: "ws_on_message streaming ai data (view w) =
            (Inl e, (view w)\<lparr>sessions := (history w)(?c \<mapsto> ?conv @ [?u]),
                              console := console_lines w @
                                [(''User response:'', voicePrompt message)]\<rparr>)"
        for e
      proof -
        have "history (?w1\<lparr>suspended := []\<rparr>) = (history w)(?c \<mapsto> ?conv @ [?u])"
          by (rule history_push [OF wf Some]) simp_all
        moreover have "well_formed (?w1\<lparr>suspended := []\<rparr>)"
          by (rule well_formed_kept [OF wf]) simp_all
        ultimately show ?thesis
          using arr res old
          by (simp add: resume_task_def view_eq)
      qed
      have completed: "?block n w'"
        if run: "interleave streaming (Arrives ai data # replicate n (Resumes 0)) w = (Inr (), w')"
          and fin: "session_refs w' = session_refs w" "socket_callSid w' = ?c"
            "arrays w' = (arrays w)[a := ?conv @ [?u, \<lparr>role = Assistant, content = response\<rparr>]]"
            "socket_sent w' = socket_sent w @ ms"
            "console_lines w' = console_lines w @
               [(''User response:'', voicePrompt message), (''AI response:'', response)]"
            "suspended w' = []"
          and old: "ws_on_message streaming ai data (view w) =
            (Inr (), (view w)\<lparr>sessions := (history w)(?c \<mapsto>
                                ?conv @ [?u, \<lparr>role = Assistant, content = response\<rparr>]),
                              ws_sent := socket_sent w @ ms,
                              console := console_lines w @
                                [(''User response:'', voicePrompt message),
                                 (''AI response:'', response)]\<rparr>)"
        for n w' response ms
      proof -
        have "history w' = (history w)(?c \<mapsto>
            ?conv @ [?u, \<lparr>role = Assistant, content = response\<rparr>])"
          by (rule history_push [OF wf Some]) (simp_all add: fin)
        moreover have "well_formed w'"
          by (rule well_formed_kept [OF wf]) (simp_all add: fin)
        ultimately show ?thesis
          using run fin old by (simp add: view_eq)
      qed
      show ?thesis
      proof (cases streaming)
        case False
        show ?thesis
        proof (cases "create ai (?conv @ [?u])")
          case (Inl e)
          have "?block 1 (?w1\<lparr>suspended := []\<rparr>)"
            using False Inl hist
            by (intro failed) (simp_all add: Json prompt_batch [OF a_prompt] um)
          then show ?thesis by blast
        next
          case (Inr completion)
          show ?thesis
          proof (cases "message_contents completion")
            case Nil
            have "?block 1 (?w1\<lparr>suspended := []\<rparr>)"
              using False Inr Nil hist
              by (intro failed) (simp_all add: Json prompt_batch [OF a_prompt] um)
            then show ?thesis by blast
          next
            case (Cons response rest)
            let ?w' = "(log_line ''AI response:'' response
                (array_push a \<lparr>role = Assistant, content = response\<rparr>
                  (socket_send \<lparr>otype = ''text'', token = response, last_flag = True\<rparr> ?w1)))
                \<lparr>suspended := []\<rparr>"
            have "?block 1 ?w'"
            proof (rule completed [where response = response
                  and ms = "[\<lparr>otype = ''text'', token = response, last_flag = True\<rparr>]"])
              show "interleave streaming (Arrives ai data # replicate 1 (Resumes 0)) w = (Inr (), ?w')"
                using arr False Inr Cons by (simp add: resume_task_def)
              show "ws_on_message streaming ai data (view w) =
                (Inr (), (view w)\<lparr>sessions := (history w)(?c \<mapsto>
                                    ?conv @ [?u, \<lparr>role = Assistant, content = response\<rparr>]),
                                  ws_sent := socket_sent w @
                                    [\<lparr>otype = ''text'', token = response, last_flag = True\<rparr>],
                                  console := console_lines w @
                                    [(''User response:'', voicePrompt message),
                                     (''AI response:'', response)]\<rparr>)"
                using False Inr Cons hist
                by (simp add: Json prompt_batch [OF a_prompt] um assistant_message_def)
            qed (simp_all add: a)
            then show ?thesis by blast
          qed
        qed
      next
        case True
        show ?thesis
        proof (cases "create_stream ai (?conv @ [?u])")
          case (Inl e)
          have "?block 1 (?w1\<lparr>suspended := []\<rparr>)"
            using True Inl hist
            by (intro failed) (simp_all add: Json prompt_streaming [OF a_prompt] um)
          then show ?thesis by blast
        next
          case (Inr stream)
          let ?t2 = "?t\<lparr>task_awaiting := Awaiting_chunk stream []\<rparr>"
          let ?w2 = "?w1\<lparr>suspended := [?t2]\<rparr>"
          let ?n = "Suc (Suc (length (chunks stream)))"
          have first: "interleave streaming (Arrives ai data # replicate ?n (Resumes 0)) w =
              interleave streaming (replicate (Suc (length (chunks stream))) (Resumes 0)) ?w2"
            using arr True Inr by (simp add: resume_task_def)
          note drained = drain_stream [of ?w2 ?t2 stream "[]" a streaming]
          show ?thesis
          proof (cases "ends_normally stream")
            case False
            let ?w' = "?w2\<lparr>socket_sent := socket_sent ?w2 @ map text_fragment (fragments stream),
                            suspended := []\<rparr>"
            have run: "interleave streaming (Arrives ai data # replicate ?n (Resumes 0)) w =
                (Inl BackendError, ?w')"
              using first drained False by simp
            have "history ?w' = (history w)(?c \<mapsto> ?conv @ [?u])"
              by (rule history_push [OF wf Some]) simp_all
            moreover have "ws_on_message streaming ai data (view w) =
                (Inl BackendError,
                 (view w)\<lparr>sessions := (history w)(?c \<mapsto> ?conv @ [?u]),
                          ws_sent := socket_sent w @ map text_fragment (fragments stream),
                          console := console_lines w @
                            [(''User response:'', voicePrompt message)]\<rparr>)"
              using True Inr False hist by (simp add: Json prompt_streaming [OF a_prompt] um)
            moreover have "well_formed ?w'"
              by (rule well_formed_kept [OF wf]) simp_all
            ultimately have "?block ?n ?w'"
              using run by (simp add: view_eq)
            then show ?thesis by blast
          next
            case ends: True
            let ?r = "Str (concat (fragments stream))"
            let ?w' = "log_line ''AI response:'' ?r
                (array_push a \<lparr>role = Assistant, content = ?r\<rparr>
                  (?w2\<lparr>socket_sent := socket_sent ?w2 @
                         map text_fragment (fragments stream) @ [final_marker],
                       suspended := []\<rparr>))"
            have "?block ?n ?w'"
            proof (rule completed [where response = ?r
                  and ms = "map text_fragment (fragments stream) @ [final_marker]"])
              show "interleave streaming (Arrives ai data # replicate ?n (Resumes 0)) w = (Inr (), ?w')"
                using first drained ends by simp
              show "ws_on_message streaming ai data (view w) =
                (Inr (), (view w)\<lparr>sessions := (history w)(?c \<mapsto>
                                    ?conv @ [?u, \<lparr>role = Assistant, content = ?r\<rparr>]),
                                  ws_sent := socket_sent w @
                                    map text_fragment (fragments stream) @ [final_marker],
                                  console := console_lines w @
                                    [(''User response:'', voicePrompt message),
                                     (''AI response:'', ?r)]\<rparr>)"
                using True Inr ends hist
                by (simp add: Json prompt_streaming [OF a_prompt] um assistant_message_def)
            qed (simp_all add: a)
            then show ?thesis by blast
          qed
        qed
      qed
    qed
  qed
qed

lemma close_view:
  assumes "well_formed w"
  shows "view (close_socket w) = ws_on_close (view w)" and "well_formed (close_socket w)"
proof -
  have "history (close_socket w) = (history w)(socket_callSid w := None)"
    by (rule ext) (simp add: history_def close_socket_def Let_def split: option.splits)
  then show "view (close_socket w) = ws_on_close (view w)"
    by (simp add: view_eq ws_on_close_def Let_def) (simp add: close_socket_def Let_def)
  show "well_formed (close_socket w)"
    using assms unfolding well_formed_def close_socket_def Let_def
    by (auto split: if_splits)
qed

lemma serial_block:
  "suspended w = [] \<Longrightarrow> serial s (Arrives ai data # replicate n (Resumes 0)) w"
  by (simp add: serial_resumptions split: prod.splits sum.splits)

text \<open>
  Every run of the one-handler-at-a-time model is a serial schedule of the server:
  the same events, each invocation resumed to its end before the next event, with
  the same outcome and the same histories, sent messages and console.
\<close>

lemma run_is_serial_schedule:
  assumes "well_formed w" and "suspended w = []"
  shows "\<exists>xs w'. external xs = evs \<and> serial streaming xs w \<and>
           interleave streaming xs w = (fst (run streaming evs (view w)), w') \<and>
           view w' = snd (run streaming evs (view w))"
  using assms
proof (induction evs arbitrary: w)
  case Nil
  have "external [] = [] \<and> serial streaming [] w \<and>
      interleave streaming [] w = (fst (run streaming [] (view w)), w) \<and>
      view w = snd (run streaming [] (view w))"
    by simp
  then show ?case by blast
next
  case (Cons ev evs)
  show ?case
  proof (cases ev)
    case Close
    let ?w1 = "close_socket w"
    note cv = close_view [OF Cons.prems(1)]
    have q1: "suspended ?w1 = []"
      using Cons.prems(2) by (simp add: close_socket_def Let_def)
    from Cons.IH [OF cv(2) q1] obtain ys w' where
      ys: "external ys = evs" "serial streaming ys ?w1"
        "interleave streaming ys ?w1 = (fst (run streaming evs (view ?w1)), w')"
        "view w' = snd (run streaming evs (view ?w1))"
      by blast
    have "external (Closes # ys) = ev # evs \<and> serial streaming (Closes # ys) w \<and>
        interleave streaming (Closes # ys) w = (fst (run streaming (ev # evs) (view w)), w') \<and>
        view w' = snd (run streaming (ev # evs) (view w))"
      using ys Cons.prems(2) by (simp add: Close cv(1))
    then show ?thesis by blast
  next
    case (Message ai data)
    from handler_block [OF Cons.prems, of streaming ai data] obtain n w1 where
      block: "interleave streaming (Arrives ai data # replicate n (Resumes 0)) w =
          (fst (ws_on_message streaming ai data (view w)), w1)" and
      v1: "view w1 = snd (ws_on_message streaming ai data (view w))" and
      q1: "suspended w1 = []" and wf1: "well_formed w1"
      by blast
    let ?block = "Arrives ai data # replicate n (Resumes 0)"
    from Cons.IH [OF wf1 q1] obtain ys w' where
      ys: "external ys = evs" "serial streaming ys w1"
        "interleave streaming ys w1 = (fst (run streaming evs (view w1)), w')"
        "view w' = snd (run streaming evs (view w1))"
      by blast
    have ext: "external (?block @ ys) = ev # evs"
      using ys(1) by (simp add: Message external_append external_resumptions)
    have ser: "serial streaming (?block @ ys) w"
      using serial_block [OF Cons.prems(2), of streaming ai data n] ys(2) block
      by (simp only: serial_append) (simp split: sum.splits)
    obtain r st1 where old: "ws_on_message streaming ai data (view w) = (r, st1)"
      by (cases "ws_on_message streaming ai data (view w)")
    show ?thesis
    proof (cases r)
      case (Inl e)
      have "interleave streaming (?block @ ys) w =
            (fst (run streaming (ev # evs) (view w)), w1) \<and>
          view w1 = snd (run streaming (ev # evs) (view w))"
        using block v1 old Inl by (simp only: interleave_append) (simp add: Message)
      then show ?thesis
        using ext ser by blast
    next
      case (Inr u)
      have "interleave streaming (?block @ ys) w =
            (fst (run streaming (ev # evs) (view w)), w') \<and>
          view w' = snd (run streaming (ev # evs) (view w))"
        using block v1 old Inr ys(3,4) by (simp only: interleave_append) (simp add: Message)
      then show ?thesis
        using ext ser by blast
    qed
  qed
qed

end
